theory Spec2Isabelle
  imports Complex_Main
begin

section \<open>Values of the JavaScript runtime\<close>

text \<open>
  A JavaScript Number is \<open>NaN\<close>, one of the two infinities, or a finite value. Finite
  values are kept as rationals; \<open>-0\<close> and \<open>0\<close> are both \<open>Fin 0\<close> (they are equal under
  \<open>===\<close> and both falsy).
\<close>

datatype number = NaN | PosInf | NegInf | Fin rat

text \<open>\<open>!x\<close> on a Number: only \<open>NaN\<close> and zero are falsy.\<close>

definition falsy_num :: "number \<Rightarrow> bool" where
  "falsy_num x = (x = NaN \<or> x = Fin 0)"

text \<open>
  Conversion of an exact decimal value to a Number. Values at or beyond the binary64
  overflow threshold become infinite and values at or below half the least subnormal
  become zero; the rounding of the mantissa inside the range is not modelled (it changes
  neither the sign of a value nor whether it is zero).
\<close>

definition to_number :: "rat \<Rightarrow> number" where
  "to_number q =
     (if 2 ^ 1024 - 2 ^ 970 \<le> \<bar>q\<bar> then (if 0 < q then PosInf else NegInf)
      else if \<bar>q\<bar> \<le> 1 / 2 ^ 1075 then Fin 0
      else Fin q)"

text \<open>
  A value read from a property of an upstream object: \<open>undefined\<close>, a string, or a
  member that the object inherits from \<open>Object.prototype\<close> (a function, or the
  prototype itself for \<open>__proto__\<close>), identified by its name. \<open>!v\<close> holds for
  \<open>undefined\<close> and for the empty string; an inherited member is truthy.
\<close>

datatype jsvalue = Undefined | Str string | Inherited string

definition truthy :: "jsvalue \<Rightarrow> bool" where
  "truthy v = (case v of Undefined \<Rightarrow> False | Str s \<Rightarrow> s \<noteq> [] | Inherited n \<Rightarrow> True)"

text \<open>\<open>a || b\<close> yields \<open>a\<close> when it is truthy and \<open>b\<close> otherwise.\<close>

definition js_or :: "jsvalue \<Rightarrow> jsvalue \<Rightarrow> jsvalue" where
  "js_or a b = (if truthy a then a else b)"

subsection \<open>String built-ins (ASCII)\<close>

text \<open>Case conversion of the ASCII letters; every other character is left as it is.\<close>

definition lower_char :: "char \<Rightarrow> char" where
  "lower_char c =
     (case map_of (zip ''ABCDEFGHIJKLMNOPQRSTUVWXYZ'' ''abcdefghijklmnopqrstuvwxyz'') c of
        Some d \<Rightarrow> d
      | None \<Rightarrow> c)"

definition upper_char :: "char \<Rightarrow> char" where
  "upper_char c =
     (case map_of (zip ''abcdefghijklmnopqrstuvwxyz'' ''ABCDEFGHIJKLMNOPQRSTUVWXYZ'') c of
        Some d \<Rightarrow> d
      | None \<Rightarrow> c)"

definition toLowerCase :: "string \<Rightarrow> string" where
  "toLowerCase s = map lower_char s"

definition toUpperCase :: "string \<Rightarrow> string" where
  "toUpperCase s = map upper_char s"

definition is_digit :: "char \<Rightarrow> bool" where
  "is_digit c = (48 \<le> (of_char c :: nat) \<and> (of_char c :: nat) \<le> 57)"

text \<open>The white space that \<open>parseInt\<close> and \<open>parseFloat\<close> skip: TAB, LF, VT, FF, CR, SP.\<close>

definition is_ws :: "char \<Rightarrow> bool" where
  "is_ws c = ((of_char c :: nat) \<in> {9, 10, 11, 12, 13, 32})"

text \<open>The value of a run of decimal digits, most significant first.\<close>

definition digits_val :: "string \<Rightarrow> nat" where
  "digits_val ds = foldl (\<lambda>acc c. 10 * acc + ((of_char c :: nat) - 48)) 0 ds"

text \<open>A leading sign: whether it is a minus, and the text after it.\<close>

definition split_sign :: "string \<Rightarrow> bool \<times> string" where
  "split_sign s =
     (case s of
        [] \<Rightarrow> (False, [])
      | c # cs \<Rightarrow> if c = CHR ''-'' then (True, cs)
                  else if c = CHR ''+'' then (False, cs)
                  else (False, s))"

text \<open>
  \<open>parseInt(v, 10)\<close>: the argument is converted to a string (\<open>undefined\<close> becomes the
  text "undefined", an inherited member the source text of a function or
  "[object Object]"; none of these starts with a digit), leading white space and one
  sign are skipped, and the longest run of decimal digits is read. No digit gives
  \<open>NaN\<close>.
\<close>

definition parseInt :: "jsvalue \<Rightarrow> number" where
  "parseInt v =
     (case v of
        Undefined \<Rightarrow> NaN
      | Inherited n \<Rightarrow> NaN
      | Str s \<Rightarrow>
          (let (neg, u) = split_sign (dropWhile is_ws s);
               ds = takeWhile is_digit u
           in if ds = [] then NaN
              else to_number (if neg then - of_nat (digits_val ds) else of_nat (digits_val ds))))"

text \<open>An exponent part \<open>e[+-]digits\<close> after the mantissa; 0 when there is none.\<close>

definition exponent_part :: "string \<Rightarrow> int" where
  "exponent_part s =
     (case s of
        [] \<Rightarrow> 0
      | c # cs \<Rightarrow>
          if c = CHR ''e'' \<or> c = CHR ''E'' then
            (let (neg, u) = split_sign cs; es = takeWhile is_digit u
             in if es = [] then 0
                else if neg then - int (digits_val es) else int (digits_val es))
          else 0)"

definition scale10 :: "rat \<Rightarrow> int \<Rightarrow> rat" where
  "scale10 q e = (if 0 \<le> e then q * 10 ^ nat e else q / 10 ^ nat (- e))"

text \<open>
  \<open>parseFloat(v)\<close>: the argument is converted to a string as for \<open>parseInt\<close>; leading
  white space and one sign are skipped; then either the word "Infinity" or the longest
  decimal literal (digits, an optional fraction, an optional exponent) is read. A text
  with no digit in the mantissa gives \<open>NaN\<close>.
\<close>

definition parseFloat :: "jsvalue \<Rightarrow> number" where
  "parseFloat v =
     (case v of
        Undefined \<Rightarrow> NaN
      | Inherited n \<Rightarrow> NaN
      | Str s \<Rightarrow>
          (let (neg, u) = split_sign (dropWhile is_ws s) in
           if take 8 u = ''Infinity'' then (if neg then NegInf else PosInf)
           else
             (let ip = takeWhile is_digit u;
                  r1 = dropWhile is_digit u;
                  has_dot = (r1 \<noteq> [] \<and> hd r1 = CHR ''.'');
                  fp = (if has_dot then takeWhile is_digit (tl r1) else []);
                  r2 = (if has_dot then dropWhile is_digit (tl r1) else r1)
              in if ip = [] \<and> fp = [] then NaN
                 else
                   (let m = of_nat (digits_val (ip @ fp)) / 10 ^ length fp;
                        q = scale10 m (exponent_part r2)
                    in to_number (if neg then - q else q)))))"

section \<open>Coordinate conversion\<close>

text \<open>
  The projection library is outside the repository: \<open>p4 x y\<close> is its answer
  \<open>[lon, lat]\<close> for the planar pair, or \<open>None\<close> when it throws.
\<close>

type_synonym projection = "number \<Rightarrow> number \<Rightarrow> (number \<times> number) option"

definition convertTWD97ToWGS84 :: "projection \<Rightarrow> number \<Rightarrow> number \<Rightarrow> number \<times> number" where
  "convertTWD97ToWGS84 p4 x y =
     (if falsy_num x \<or> falsy_num y then (Fin 0, Fin 0)
      else case p4 x y of
             Some (lon, lat) \<Rightarrow> (lat, lon)
           | None \<Rightarrow> (Fin 0, Fin 0))"

section \<open>Tolerant field lookup\<close>

text \<open>
  An upstream object of the paginated source: its own properties as the list of
  key/value pairs, all string-valued as the interfaces \<open>NTPCParkingLotDesc\<close> and
  \<open>NTPCParkingLotAvail\<close> declare them (a key occurs once, as after \<open>JSON.parse\<close>).
  An array element may also be \<open>null\<close> (\<open>None\<close>).
\<close>

type_synonym ntpc_obj = "(string \<times> string) list"

text \<open>The names of the members that every object inherits from \<open>Object.prototype\<close>.\<close>

definition object_prototype_members :: "string list" where
  "object_prototype_members =
     [''constructor'', ''hasOwnProperty'', ''isPrototypeOf'', ''propertyIsEnumerable'',
      ''toLocaleString'', ''toString'', ''valueOf'', ''__proto__'', ''__defineGetter__'',
      ''__defineSetter__'', ''__lookupGetter__'', ''__lookupSetter__'']"

text \<open>
  The property read \<open>obj[key]\<close> on an object: an own property wins; otherwise the key
  is looked up on the prototype.
\<close>

definition obj_get :: "ntpc_obj \<Rightarrow> string \<Rightarrow> jsvalue" where
  "obj_get ob key =
     (case map_of ob key of
        Some s \<Rightarrow> Str s
      | None \<Rightarrow> if key \<in> set object_prototype_members then Inherited key else Undefined)"

definition getProp :: "ntpc_obj option \<Rightarrow> string \<Rightarrow> jsvalue" where
  "getProp obj key =
     (case obj of
        None \<Rightarrow> Undefined
      | Some ob \<Rightarrow>
          js_or (obj_get ob key)
            (js_or (obj_get ob (toLowerCase key)) (obj_get ob (toUpperCase key))))"

section \<open>Network\<close>

text \<open>
  Upstream payloads, typed as the repository's interfaces declare them. Of a description
  entry of the stable-schema source only the fields the pipeline reads are kept.
\<close>

record ParkingLotDesc =
  desc_id :: string
  desc_name :: string
  desc_address :: string
  desc_payex :: string
  desc_totalcar :: number
  tw97x :: string
  tw97y :: string

record ParkingLotAvail =
  avail_id :: string
  avail_availablecar :: number

text \<open>
  A parsed JSON body: \<open>{data: {park: [...]}}\<close> of descriptions or of availabilities, an
  array of flat objects, or any other value (one that is no array and has no
  \<open>data.park\<close> array).
\<close>

datatype json =
    DescJson "ParkingLotDesc list"
  | AvailJson "ParkingLotAvail list"
  | ArrayJson "ntpc_obj option list"
  | OtherJson

text \<open>
  What one \<open>fetch\<close> call gives: the promise rejects (network failure or timeout), the
  status is not 2xx, the status is 2xx but reading the body fails, the body is no JSON,
  or the body parses.
\<close>

datatype response = Rejected | NotOk | OkBodyError | OkNotJson | OkJson json

text \<open>
  The network answers the \<open>n\<close>-th request for a URL (counted from 0) with \<open>net url n\<close>.
  Every URL is requested by one sequential task only, so the events that a task has
  logged so far determine the count. An event is a request (with its timeout in ms) or
  a backoff sleep; the messages written to the console are not modelled.
\<close>

type_synonym network = "string \<Rightarrow> nat \<Rightarrow> response"

datatype event = Fetch string "nat option" | Sleep nat

definition attempt_no :: "event list \<Rightarrow> string \<Rightarrow> nat" where
  "attempt_no evs url =
     length (filter (\<lambda>e. case e of Fetch u _ \<Rightarrow> u = url | Sleep _ \<Rightarrow> False) evs)"

text \<open>\<open>fetch(url, {signal: AbortSignal.timeout(t)})\<close>; \<open>None\<close> is a call without timeout.\<close>

definition fetch :: "network \<Rightarrow> string \<Rightarrow> nat option \<Rightarrow> event list \<Rightarrow> response \<times> event list" where
  "fetch net url t evs = (net url (attempt_no evs url), evs @ [Fetch url t])"

text \<open>
  The two \<open>Error\<close> objects that the pipeline throws, under the names the specification
  gives them: the one of \<open>fetchWithRetry\<close> (with the URL) and the one of
  \<open>fetchParkingData\<close>.
\<close>

datatype error = FetchExhausted string | NoDataAvailable

definition TPC_DESC_URL :: string where
  "TPC_DESC_URL = ''https://tcgbusfs.blob.core.windows.net/blobtcmsv/TCMSV_alldesc.json''"

definition TPC_AVAIL_URL :: string where
  "TPC_AVAIL_URL = ''https://tcgbusfs.blob.core.windows.net/blobtcmsv/TCMSV_allavailable.json''"

definition NTPC_DESC_BASE_URL :: string where
  "NTPC_DESC_BASE_URL =
     ''https://data.ntpc.gov.tw/api/datasets/b1464ef0-9c7c-4a6f-abf7-6bdf32847e68/json''"

definition NTPC_AVAIL_BASE_URL :: string where
  "NTPC_AVAIL_BASE_URL =
     ''https://data.ntpc.gov.tw/api/datasets/e09b35a5-a738-48cc-b0f5-570b67ad9c78/json''"

text \<open>The relay rewrites; \<open>enc\<close> is the built-in \<open>encodeURIComponent\<close>.\<close>

definition PROXIES :: "(string \<Rightarrow> string) \<Rightarrow> (string \<Rightarrow> string) list" where
  "PROXIES enc =
     [\<lambda>url. ''https://corsproxy.io/?'' @ enc url,
      \<lambda>url. ''https://api.allorigins.win/raw?url='' @ enc url]"

section \<open>Fetching with relays and retries\<close>

text \<open>
  The inner loop \<open>for (let i = 0; i <= retries; i++)\<close> on one relay URL. \<open>Some j\<close> is the
  \<open>return\<close> of the parsed body; \<open>None\<close> is leaving the loop (by \<open>break\<close> or at its end).
\<close>

function relay_attempts ::
  "network \<Rightarrow> string \<Rightarrow> nat \<Rightarrow> nat \<Rightarrow> event list \<Rightarrow> json option \<times> event list" where
  "relay_attempts net proxyUrl retries i evs =
     (if i \<le> retries then
        (case fetch net proxyUrl (Some 8000) evs of
           (OkJson j, evs1) \<Rightarrow> (Some j, evs1)
         | (OkNotJson, evs1) \<Rightarrow> (None, evs1)
         | (NotOk, evs1) \<Rightarrow> relay_attempts net proxyUrl retries (i + 1) evs1
         | (r, evs1) \<Rightarrow>
             if i = retries then relay_attempts net proxyUrl retries (i + 1) evs1
             else relay_attempts net proxyUrl retries (i + 1) (evs1 @ [Sleep (500 * (i + 1))]))
      else (None, evs))"
  by pat_completeness auto
termination
  by (relation "measure (\<lambda>(net, proxyUrl, retries, i, evs). retries + 1 - i)") auto

declare relay_attempts.simps [simp del]

text \<open>The outer loop \<open>for (const proxyFn of PROXIES)\<close>, then the final \<open>throw\<close>.\<close>

fun try_proxies ::
  "network \<Rightarrow> string \<Rightarrow> string list \<Rightarrow> nat \<Rightarrow> event list \<Rightarrow> (error + json) \<times> event list" where
  "try_proxies net url [] retries evs = (Inl (FetchExhausted url), evs)"
| "try_proxies net url (proxyUrl # rest) retries evs =
     (case relay_attempts net proxyUrl retries 0 evs of
        (Some j, evs1) \<Rightarrow> (Inr j, evs1)
      | (None, evs1) \<Rightarrow> try_proxies net url rest retries evs1)"

text \<open>
  \<open>fetchWithRetry\<close>: the direct attempt returns only a 2xx response whose body parses;
  every other outcome of it is swallowed and the relays are tried.
\<close>

definition fetchWithRetry ::
  "network \<Rightarrow> (string \<Rightarrow> string) \<Rightarrow> string \<Rightarrow> nat \<Rightarrow> event list \<Rightarrow> (error + json) \<times> event list" where
  "fetchWithRetry net enc url retries evs =
     (case fetch net url (Some 5000) evs of
        (OkJson j, evs1) \<Rightarrow> (Inr j, evs1)
      | (r, evs1) \<Rightarrow> try_proxies net url (map (\<lambda>proxyFn. proxyFn url) (PROXIES enc)) retries evs1)"

section \<open>Pagination\<close>

text \<open>The decimal text of a number, as a template literal inserts it.\<close>

fun show_nat :: "nat \<Rightarrow> string" where
  "show_nat n =
     (if n < 10 then [''0123456789'' ! n]
      else show_nat (n div 10) @ [''0123456789'' ! (n mod 10)])"

declare show_nat.simps [simp del]

definition page_url :: "string \<Rightarrow> nat \<Rightarrow> nat \<Rightarrow> string" where
  "page_url baseUrl page ts =
     baseUrl @ ''?page='' @ show_nat page @ ''&size='' @ show_nat 1000 @ ''&_t='' @ show_nat ts"

text \<open>
  The \<open>while (true)\<close> loop of \<open>fetchAllNTPCData\<close>, from the state \<open>(page, allData)\<close>;
  \<open>ts\<close> is the reading of the clock taken before the loop.
\<close>

function ntpc_pages ::
  "network \<Rightarrow> (string \<Rightarrow> string) \<Rightarrow> string \<Rightarrow> nat \<Rightarrow> nat \<Rightarrow> ntpc_obj option list \<Rightarrow> event list
     \<Rightarrow> ntpc_obj option list \<times> event list" where
  "ntpc_pages net enc baseUrl ts page allData evs =
     (case fetchWithRetry net enc (page_url baseUrl page ts) 2 evs of
        (Inl err, evs1) \<Rightarrow> (allData, evs1)
      | (Inr (ArrayJson data), evs1) \<Rightarrow>
          if data = [] then (allData, evs1)
          else if page + 1 > 15 then (allData @ data, evs1)
          else ntpc_pages net enc baseUrl ts (page + 1) (allData @ data) evs1
      | (Inr other, evs1) \<Rightarrow> (allData, evs1))"
  by pat_completeness auto
termination
  by (relation "measure (\<lambda>(net, enc, baseUrl, ts, page, allData, evs). 16 - page)") auto

declare ntpc_pages.simps [simp del]

definition fetchAllNTPCData ::
  "network \<Rightarrow> (string \<Rightarrow> string) \<Rightarrow> nat \<Rightarrow> string \<Rightarrow> ntpc_obj option list \<times> event list" where
  "fetchAllNTPCData net enc ts baseUrl = ntpc_pages net enc baseUrl ts 0 [] []"

section \<open>Source normalizers\<close>

datatype source = TPC | NTPC

text \<open>
  The canonical record. The string fields of the paginated source are whatever
  \<open>getProp\<close> returns, which may be \<open>undefined\<close>.
\<close>

record ParkingLotData =
  lot_id :: jsvalue
  name :: jsvalue
  address :: jsvalue
  payex :: jsvalue
  totalcar :: number
  availablecar :: number
  lat :: number
  lng :: number
  lastUpdated :: nat
  source :: source

subsection \<open>Stable-schema source\<close>

text \<open>
  \<open>parksAvail.forEach(p => availMap.set(p.id, p.availablecar))\<close>. A value \<open>None\<close>
  in the map is a stored \<open>undefined\<close>: the loop stores it when the array holds
  description objects, which have no \<open>availablecar\<close>.
\<close>

definition tpc_availMap :: "ParkingLotAvail list \<Rightarrow> (string \<rightharpoonup> number option)" where
  "tpc_availMap parksAvail =
     foldl (\<lambda>m p. m(avail_id p \<mapsto> Some (avail_availablecar p))) Map.empty parksAvail"

definition tpc_availMap_of_desc :: "ParkingLotDesc list \<Rightarrow> (string \<rightharpoonup> number option)" where
  "tpc_availMap_of_desc others = foldl (\<lambda>m p. m(desc_id p \<mapsto> None)) Map.empty others"

text \<open>
  The body of \<open>parksDesc.map\<close>; \<open>now\<close> is the reading of the clock. \<open>?? -9\<close> replaces
  \<open>undefined\<close>, whether no entry is stored under the id or \<open>undefined\<close> is.
\<close>

definition tpc_record ::
  "projection \<Rightarrow> nat \<Rightarrow> (string \<rightharpoonup> number option) \<Rightarrow> ParkingLotDesc \<Rightarrow> ParkingLotData" where
  "tpc_record p4 now availMap desc =
     (let x = parseFloat (Str (tw97x desc));
          y = parseFloat (Str (tw97y desc));
          (la, lo) = convertTWD97ToWGS84 p4 x y
      in \<lparr> lot_id = Str (desc_id desc),
           name = Str (desc_name desc),
           address = Str (desc_address desc),
           payex = Str (desc_payex desc),
           totalcar = desc_totalcar desc,
           availablecar = (case availMap (desc_id desc) of Some (Some a) \<Rightarrow> a | _ \<Rightarrow> Fin (- 9)),
           lat = la,
           lng = lo,
           lastUpdated = now,
           source = TPC \<rparr>)"

text \<open>The \<open>map\<close> and the \<open>filter\<close> over the descriptions, for a given \<open>availMap\<close>.\<close>

definition tpc_emit ::
  "projection \<Rightarrow> nat \<Rightarrow> (string \<rightharpoonup> number option) \<Rightarrow> ParkingLotDesc list \<Rightarrow> ParkingLotData list" where
  "tpc_emit p4 now availMap parksDesc =
     filter (\<lambda>p. lat p \<noteq> Fin 0 \<and> lng p \<noteq> Fin 0) (map (tpc_record p4 now availMap) parksDesc)"

text \<open>
  The normalization of a description array and an availability array: the \<open>availMap\<close>
  of the second, then the \<open>map\<close> and the \<open>filter\<close> over the first.
\<close>

definition tpc_normalize ::
  "projection \<Rightarrow> nat \<Rightarrow> ParkingLotDesc list \<Rightarrow> ParkingLotAvail list \<Rightarrow> ParkingLotData list" where
  "tpc_normalize p4 now parksDesc parksAvail = tpc_emit p4 now (tpc_availMap parksAvail) parksDesc"

text \<open>
  The \<open>availMap\<close> built from the body of the availability request. The code does not
  check what the \<open>park\<close> array holds: an array of description objects is processed as
  well. A body without a \<open>data.park\<close> array makes the code throw (\<open>None\<close>).
\<close>

definition park_availMap :: "json \<Rightarrow> (string \<rightharpoonup> number option) option" where
  "park_availMap availJson =
     (case availJson of
        AvailJson parksAvail \<Rightarrow> Some (tpc_availMap parksAvail)
      | DescJson others \<Rightarrow> Some (tpc_availMap_of_desc others)
      | ArrayJson xs \<Rightarrow> None
      | OtherJson \<Rightarrow> None)"

text \<open>
  \<open>fetchTaipeiData\<close>: both requests are issued at once, without timeout. A rejected
  request, a status that is not 2xx, a body that does not parse and a body without a
  \<open>data.park\<close> array all end in the \<open>catch\<close>, which returns the empty list. When the
  body of the description request is an availability payload nothing is thrown, but its
  objects have no \<open>tw97x\<close> and \<open>tw97y\<close>: \<open>parseFloat(undefined)\<close> is \<open>NaN\<close>, every
  mapped record gets the coordinates \<open>(0, 0)\<close> and the filter removes it, so the result
  is the empty list as well.
\<close>

definition fetchTaipeiData :: "network \<Rightarrow> projection \<Rightarrow> nat \<Rightarrow> ParkingLotData list \<times> event list" where
  "fetchTaipeiData net p4 now =
     (let (descRes, evs1) = fetch net TPC_DESC_URL None [];
          (availRes, evs2) = fetch net TPC_AVAIL_URL None evs1
      in case (descRes, availRes) of
           (OkJson descJson, OkJson availJson) \<Rightarrow>
             (case (descJson, park_availMap availJson) of
                (DescJson parksDesc, Some availMap) \<Rightarrow> (tpc_emit p4 now availMap parksDesc, evs2)
              | _ \<Rightarrow> ([], evs2))
         | _ \<Rightarrow> ([], evs2))"

subsection \<open>Paginated source\<close>

text \<open>
  The body of \<open>availArray.forEach\<close>, then the loop over the array. The keys of the
  \<open>Map\<close> are the values that \<open>getProp\<close> returns for \<open>ID\<close>; a \<open>Map\<close> compares string
  keys by their text.
\<close>

definition ntpc_avail_step :: "(jsvalue \<rightharpoonup> number) \<Rightarrow> ntpc_obj option \<Rightarrow> (jsvalue \<rightharpoonup> number)" where
  "ntpc_avail_step m p =
     (let ident = getProp p ''ID'';
          avail = getProp p ''AVAILABLECAR'';
          count = parseInt avail
      in if truthy ident then m(ident \<mapsto> (if count = NaN then Fin (- 9) else count))
         else m)"

definition ntpc_availMap :: "ntpc_obj option list \<Rightarrow> (jsvalue \<rightharpoonup> number)" where
  "ntpc_availMap availArray = foldl ntpc_avail_step Map.empty availArray"

text \<open>
  The body of \<open>descArray.map\<close>. \<open>parseInt(totalStr, 10) || 0\<close> is 0 when the parse is
  \<open>NaN\<close> or zero.
\<close>

definition ntpc_record ::
  "projection \<Rightarrow> nat \<Rightarrow> (jsvalue \<rightharpoonup> number) \<Rightarrow> ntpc_obj option \<Rightarrow> ParkingLotData" where
  "ntpc_record p4 now availMap desc =
     (let xStr = getProp desc ''TW97X'';
          yStr = getProp desc ''TW97Y'';
          x = parseFloat xStr;
          y = parseFloat yStr;
          (la, lo) = convertTWD97ToWGS84 p4 x y;
          ident = getProp desc ''ID'';
          totalStr = getProp desc ''TOTALCAR''
      in \<lparr> lot_id = ident,
           name = getProp desc ''NAME'',
           address = getProp desc ''ADDRESS'',
           payex = getProp desc ''PAYEX'',
           totalcar = (if falsy_num (parseInt totalStr) then Fin 0 else parseInt totalStr),
           availablecar = (case availMap ident of None \<Rightarrow> Fin (- 9) | Some a \<Rightarrow> a),
           lat = la,
           lng = lo,
           lastUpdated = now,
           source = NTPC \<rparr>)"

definition ntpc_normalize ::
  "projection \<Rightarrow> nat \<Rightarrow> ntpc_obj option list \<Rightarrow> ntpc_obj option list \<Rightarrow> ParkingLotData list" where
  "ntpc_normalize p4 now descArray availArray =
     filter (\<lambda>p. lat p \<noteq> Fin 0 \<and> lng p \<noteq> Fin 0 \<and> truthy (lot_id p))
       (map (ntpc_record p4 now (ntpc_availMap availArray)) descArray)"

text \<open>
  \<open>fetchNewTaipeiData\<close>: the two paginations run as separate tasks, each with its own
  events. Nothing in the \<open>try\<close> block throws, since \<open>fetchAllNTPCData\<close> catches every
  failure itself.
\<close>

definition fetchNewTaipeiData ::
  "network \<Rightarrow> (string \<Rightarrow> string) \<Rightarrow> projection \<Rightarrow> nat \<Rightarrow> nat
     \<Rightarrow> ParkingLotData list \<times> event list \<times> event list" where
  "fetchNewTaipeiData net enc p4 ts now =
     (let (descArray, devs) = fetchAllNTPCData net enc ts NTPC_DESC_BASE_URL;
          (availArray, aevs) = fetchAllNTPCData net enc ts NTPC_AVAIL_BASE_URL
      in (ntpc_normalize p4 now descArray availArray, devs, aevs))"

section \<open>Aggregation\<close>

definition fetchParkingData ::
  "network \<Rightarrow> (string \<Rightarrow> string) \<Rightarrow> projection \<Rightarrow> nat \<Rightarrow> nat \<Rightarrow> error + ParkingLotData list" where
  "fetchParkingData net enc p4 ts now =
     (let tpcData = fst (fetchTaipeiData net p4 now);
          ntpcData = fst (fetchNewTaipeiData net enc p4 ts now);
          combined = tpcData @ ntpcData
      in if combined = [] then Inl NoDataAvailable else Inr combined)"

section \<open>Observations and sample inputs\<close>

text \<open>
  A value that ends the pagination loop: a failed fetch, or a body that is not a
  non-empty array.
\<close>

definition ends_pagination :: "error + json \<Rightarrow> bool" where
  "ends_pagination res =
     (case res of
        Inl err \<Rightarrow> True
      | Inr (ArrayJson data) \<Rightarrow> data = []
      | Inr other \<Rightarrow> True)"

text \<open>
  \<open>collected net enc baseUrl ts page k evs\<close>: the \<open>k\<close> pages from \<open>page\<close> on, fetched one
  after the other starting with the events \<open>evs\<close>, each give a non-empty array; the
  result is their concatenation and the events after the last of them.
\<close>

fun collected ::
  "network \<Rightarrow> (string \<Rightarrow> string) \<Rightarrow> string \<Rightarrow> nat \<Rightarrow> nat \<Rightarrow> nat \<Rightarrow> event list
     \<Rightarrow> (ntpc_obj option list \<times> event list) option" where
  "collected net enc baseUrl ts page 0 evs = Some ([], evs)"
| "collected net enc baseUrl ts page (Suc k) evs =
     (case fetchWithRetry net enc (page_url baseUrl page ts) 2 evs of
        (Inr (ArrayJson data), evs1) \<Rightarrow>
          if data = [] then None
          else (case collected net enc baseUrl ts (page + 1) k evs1 of
                  Some (rest, evs2) \<Rightarrow> Some (data @ rest, evs2)
                | None \<Rightarrow> None)
      | (other, evs1) \<Rightarrow> None)"

text \<open>The direct attempt of \<open>fetchWithRetry\<close> is the only request with the 5 s timeout.\<close>

definition is_direct :: "event \<Rightarrow> bool" where
  "is_direct e = (case e of Fetch u t \<Rightarrow> t = Some 5000 | Sleep ms \<Rightarrow> False)"

definition is_fetch :: "event \<Rightarrow> bool" where
  "is_fetch e = (case e of Fetch u t \<Rightarrow> True | Sleep ms \<Rightarrow> False)"

text \<open>
  A response on which \<open>fetchTaipeiData\<close> does not throw: a 2xx status with a JSON body
  that has a \<open>data.park\<close> array.
\<close>

definition delivers_park :: "response \<Rightarrow> bool" where
  "delivers_park r =
     (case r of
        OkJson (DescJson parksDesc) \<Rightarrow> True
      | OkJson (AvailJson parksAvail) \<Rightarrow> True
      | other \<Rightarrow> False)"

text \<open>
  The fetches that a pagination makes when it requests the given pages one after the
  other, each through \<open>fetchWithRetry\<close> with the default \<open>retries = 2\<close>: the events
  after the last of them.
\<close>

definition retry_events ::
  "network \<Rightarrow> (string \<Rightarrow> string) \<Rightarrow> string \<Rightarrow> nat \<Rightarrow> nat list \<Rightarrow> event list \<Rightarrow> event list" where
  "retry_events net enc baseUrl ts pages evs =
     foldl (\<lambda>e page. snd (fetchWithRetry net enc (page_url baseUrl page ts) 2 e)) evs pages"

text \<open>
  The value that the availability entries give for an identifier: that of the last
  entry stored under it, \<open>-9\<close> when there is none.
\<close>

definition ntpc_last_value :: "ntpc_obj option list \<Rightarrow> jsvalue \<Rightarrow> number" where
  "ntpc_last_value availArray ident =
     (case find (\<lambda>p. getProp p ''ID'' = ident) (rev availArray) of
        None \<Rightarrow> Fin (- 9)
      | Some p \<Rightarrow>
          if parseInt (getProp p ''AVAILABLECAR'') = NaN then Fin (- 9)
          else parseInt (getProp p ''AVAILABLECAR''))"

definition tpc_last_value :: "ParkingLotAvail list \<Rightarrow> string \<Rightarrow> number" where
  "tpc_last_value parksAvail ident =
     (case find (\<lambda>p. avail_id p = ident) (rev parksAvail) of
        None \<Rightarrow> Fin (- 9)
      | Some p \<Rightarrow> avail_availablecar p)"

text \<open>
  The specification's words for the two counts of a canonical record: \<open>availableCount\<close>
  is a non-negative integer or one of \<open>-9\<close>, \<open>-11\<close>, \<open>-12\<close>, \<open>-13\<close>; \<open>totalCapacity\<close> is
  a non-negative integer.
\<close>

definition spec_available_ok :: "number \<Rightarrow> bool" where
  "spec_available_ok a =
     (case a of
        Fin q \<Rightarrow> (q \<in> \<int> \<and> 0 \<le> q) \<or> q \<in> {- 9, - 11, - 12, - 13}
      | other \<Rightarrow> False)"

definition spec_total_ok :: "number \<Rightarrow> bool" where
  "spec_total_ok a = (case a of Fin q \<Rightarrow> q \<in> \<int> \<and> 0 \<le> q | other \<Rightarrow> False)"

definition sample_projection :: projection where
  "sample_projection x y = Some (Fin 121, Fin 25)"

definition sample_desc :: ParkingLotDesc where
  "sample_desc =
     \<lparr> desc_id = ''P1'', desc_name = ''Lot'', desc_address = ''Road'', desc_payex = ''fee'',
       desc_totalcar = Fin 100, tw97x = ''300000'', tw97y = ''2770000'' \<rparr>"

definition sample_avail :: ParkingLotAvail where
  "sample_avail = \<lparr> avail_id = ''P1'', avail_availablecar = Fin 42 \<rparr>"

definition negative_avail :: ParkingLotAvail where
  "negative_avail = \<lparr> avail_id = ''P1'', avail_availablecar = Fin (- 5) \<rparr>"

definition sample_lot :: ParkingLotData where
  "sample_lot =
     \<lparr> lot_id = Str ''P1'', name = Str ''Lot'', address = Str ''Road'', payex = Str ''fee'',
       totalcar = Fin 100, availablecar = Fin 42, lat = Fin 25, lng = Fin 121,
       lastUpdated = 0, source = TPC \<rparr>"

definition ntpc_desc_obj :: ntpc_obj where
  "ntpc_desc_obj =
     [(''ID'', ''A1''), (''TW97X'', ''300000''), (''tw97y'', ''2770000''), (''TOTALCAR'', ''-5'')]"

definition ntpc_avail_obj :: ntpc_obj where
  "ntpc_avail_obj = [(''ID'', ''A1''), (''AVAILABLECAR'', ''-5'')]"

definition ntpc_lot :: ParkingLotData where
  "ntpc_lot =
     \<lparr> lot_id = Str ''A1'', name = Undefined, address = Undefined, payex = Undefined,
       totalcar = Fin (- 5), availablecar = Fin (- 5), lat = Fin 25, lng = Fin 121,
       lastUpdated = 0, source = NTPC \<rparr>"

definition unparsable_desc_obj :: ntpc_obj where
  "unparsable_desc_obj =
     [(''id'', ''B2''), (''tw97x'', ''300000''), (''tw97y'', ''2770000''), (''totalcar'', ''many'')]"

definition unparsable_avail_obj :: ntpc_obj where
  "unparsable_avail_obj = [(''id'', ''B2''), (''availablecar'', ''n/a'')]"

definition no_coords_obj :: ntpc_obj where
  "no_coords_obj = [(''ID'', ''C3''), (''TW97X'', ''abc''), (''TW97Y'', ''2770000'')]"

definition no_coords_desc :: ParkingLotDesc where
  "no_coords_desc =
     \<lparr> desc_id = ''P2'', desc_name = ''Lot'', desc_address = ''Road'', desc_payex = ''fee'',
       desc_totalcar = Fin 10, tw97x = ''300000'', tw97y = ''abc'' \<rparr>"

text \<open>A network that gives every request the same answer.\<close>

definition net_always :: "response \<Rightarrow> network" where
  "net_always r url n = r"

text \<open>
  A network on which both sources answer their direct requests: the stable-schema source
  with one lot, the paginated source with one object on page 0 and \<open>[]\<close> afterwards
  (for the clock reading 7).
\<close>

definition sample_net :: network where
  "sample_net url n =
     (if url = TPC_DESC_URL then OkJson (DescJson [sample_desc])
      else if url = TPC_AVAIL_URL then OkJson (AvailJson [sample_avail])
      else if url = page_url NTPC_DESC_BASE_URL 0 7 then OkJson (ArrayJson [Some ntpc_desc_obj])
      else if url = page_url NTPC_AVAIL_BASE_URL 0 7 then OkJson (ArrayJson [Some ntpc_avail_obj])
      else OkJson (ArrayJson []))"

text \<open>
  A network on which the direct requests to the stable-schema source are rejected, while
  every relay would deliver the payloads.
\<close>

definition blocked_net :: network where
  "blocked_net url n =
     (if url = TPC_DESC_URL \<or> url = TPC_AVAIL_URL then Rejected
      else if url = ''https://corsproxy.io/?'' @ TPC_DESC_URL then OkJson (DescJson [sample_desc])
      else if url = ''https://corsproxy.io/?'' @ TPC_AVAIL_URL then OkJson (AvailJson [sample_avail])
      else Rejected)"

text \<open>
  A network on which page 0 of a base URL \<open>b\<close> gives one object and every request for
  page 1 fails, directly and through the relays (clock reading 7, identity encoding).
\<close>

definition failing_page_net :: "string \<Rightarrow> network" where
  "failing_page_net b url n =
     (if url = page_url b 0 7 then OkJson (ArrayJson [Some ntpc_desc_obj]) else Rejected)"

text \<open>The sample network with one of the two sources unreachable.\<close>

definition ntpc_only_net :: network where
  "ntpc_only_net url n =
     (if url = TPC_DESC_URL \<or> url = TPC_AVAIL_URL then Rejected else sample_net url n)"

text \<open>
  The sample network with the two payloads of the stable-schema source swapped at the
  availability URL: it answers with the description payload, too.
\<close>

definition desc_twice_net :: network where
  "desc_twice_net url n =
     (if url = TPC_AVAIL_URL then OkJson (DescJson [sample_desc]) else sample_net url n)"

definition unknown_lot :: ParkingLotData where
  "unknown_lot =
     \<lparr> lot_id = Str ''P1'', name = Str ''Lot'', address = Str ''Road'', payex = Str ''fee'',
       totalcar = Fin 100, availablecar = Fin (- 9), lat = Fin 25, lng = Fin 121,
       lastUpdated = 0, source = TPC \<rparr>"

definition negative_lot :: ParkingLotData where
  "negative_lot =
     \<lparr> lot_id = Str ''P1'', name = Str ''Lot'', address = Str ''Road'', payex = Str ''fee'',
       totalcar = Fin 100, availablecar = Fin (- 5), lat = Fin 25, lng = Fin 121,
       lastUpdated = 0, source = TPC \<rparr>"

text \<open>The sample network with the availability \<open>-5\<close> for the lot of the stable-schema source.\<close>

definition negative_net :: network where
  "negative_net url n =
     (if url = TPC_AVAIL_URL then OkJson (AvailJson [negative_avail]) else sample_net url n)"

definition tpc_only_net :: network where
  "tpc_only_net url n =
     (if url = TPC_DESC_URL \<or> url = TPC_AVAIL_URL then sample_net url n else Rejected)"

section \<open>Evaluating the built-ins on the samples\<close>

lemma to_number_mid: "1 \<le> \<bar>q\<bar> \<Longrightarrow> \<bar>q\<bar> \<le> 10 ^ 300 \<Longrightarrow> to_number q = Fin q"
proof -
  assume a: "1 \<le> \<bar>q\<bar>" and b: "\<bar>q\<bar> \<le> 10 ^ 300"
  have big: "(10::rat) ^ 300 < 2 ^ 1024 - 2 ^ 970" by simp
  have small: "1 / (2::rat) ^ 1075 < 1" by simp
  have n1: "\<not> (2 ^ 1024 - 2 ^ 970 \<le> \<bar>q\<bar>)" using b big by linarith
  have n2: "\<not> (\<bar>q\<bar> \<le> 1 / 2 ^ 1075)" using a small by linarith
  show ?thesis unfolding to_number_def using n1 n2 by (simp only: if_False)
qed

lemmas parse_defs = parseInt_def parseFloat_def split_sign_def is_ws_def is_digit_def
  digits_val_def exponent_part_def scale10_def

lemmas case_defs = toLowerCase_def toUpperCase_def lower_char_def upper_char_def

lemmas prop_defs = getProp_def obj_get_def object_prototype_members_def js_or_def truthy_def
  case_defs

lemma parseFloat_300000: "parseFloat (Str ''300000'') = Fin 300000"
  by (simp add: parse_defs to_number_mid)

lemma parseFloat_2770000: "parseFloat (Str ''2770000'') = Fin 2770000"
  by (simp add: parse_defs to_number_mid)

lemma parseFloat_abc: "parseFloat (Str ''abc'') = NaN"
  by (simp add: parse_defs)

lemma parseInt_minus5: "parseInt (Str ''-5'') = Fin (- 5)"
  by (simp add: parse_defs to_number_mid)

lemma parseInt_words: "parseInt (Str ''many'') = NaN" "parseInt (Str ''n/a'') = NaN"
  by (simp_all add: parse_defs)

section \<open>Unfolding the fetch loops\<close>

lemma attempt_no_Nil: "attempt_no [] url = 0"
  by (simp add: attempt_no_def)

lemma fetchWithRetry_direct:
  "net url (attempt_no evs url) = OkJson j \<Longrightarrow>
   fetchWithRetry net enc url retries evs = (Inr j, evs @ [Fetch url (Some 5000)])"
  by (simp add: fetchWithRetry_def fetch_def)

lemma ntpc_pages_stop:
  "fetchWithRetry net enc (page_url baseUrl page ts) 2 evs = (res, evs1) \<Longrightarrow>
   ends_pagination res \<Longrightarrow>
   ntpc_pages net enc baseUrl ts page allData evs = (allData, evs1)"
  by (subst ntpc_pages.simps)
     (auto simp: ends_pagination_def split: sum.splits json.splits)

lemma ntpc_pages_more:
  "fetchWithRetry net enc (page_url baseUrl page ts) 2 evs = (Inr (ArrayJson data), evs1) \<Longrightarrow>
   data \<noteq> [] \<Longrightarrow> page < 15 \<Longrightarrow>
   ntpc_pages net enc baseUrl ts page allData evs =
     ntpc_pages net enc baseUrl ts (page + 1) (allData @ data) evs1"
  by (subst ntpc_pages.simps) simp

lemma ntpc_pages_last:
  "fetchWithRetry net enc (page_url baseUrl page ts) 2 evs = (Inr (ArrayJson data), evs1) \<Longrightarrow>
   data \<noteq> [] \<Longrightarrow> 15 \<le> page \<Longrightarrow>
   ntpc_pages net enc baseUrl ts page allData evs = (allData @ data, evs1)"
  by (subst ntpc_pages.simps) simp

section \<open>What the normalizers emit\<close>

lemma in_tpc_emit:
  "r \<in> set (tpc_emit p4 now am ds) \<Longrightarrow>
     lat r \<noteq> Fin 0 \<and> lng r \<noteq> Fin 0 \<and> (\<exists>d\<in>set ds. r = tpc_record p4 now am d)"
  by (auto simp: tpc_emit_def)

lemma in_ntpc_normalize:
  "r \<in> set (ntpc_normalize p4 now ds av) \<Longrightarrow>
     lat r \<noteq> Fin 0 \<and> lng r \<noteq> Fin 0 \<and> truthy (lot_id r) \<and>
     (\<exists>d\<in>set ds. r = ntpc_record p4 now (ntpc_availMap av) d)"
  by (auto simp: ntpc_normalize_def)

lemma fetchTaipeiData_cases:
  "fst (fetchTaipeiData net p4 now) = [] \<or>
   (\<exists>ds j am. net TPC_DESC_URL 0 = OkJson (DescJson ds) \<and> net TPC_AVAIL_URL 0 = OkJson j \<and>
      park_availMap j = Some am \<and> fst (fetchTaipeiData net p4 now) = tpc_emit p4 now am ds)"
  by (auto simp: fetchTaipeiData_def fetch_def attempt_no_def TPC_DESC_URL_def TPC_AVAIL_URL_def
      split: response.splits json.splits prod.splits option.splits)

lemma fetchTaipeiData_typed:
  "net TPC_DESC_URL 0 = OkJson (DescJson ds) \<Longrightarrow> net TPC_AVAIL_URL 0 = OkJson (AvailJson av) \<Longrightarrow>
   fst (fetchTaipeiData net p4 now) = tpc_normalize p4 now ds av"
  by (simp add: fetchTaipeiData_def fetch_def attempt_no_def park_availMap_def tpc_normalize_def
      TPC_DESC_URL_def TPC_AVAIL_URL_def)

lemma fetchTaipeiData_needs_park:
  "\<not> delivers_park (net TPC_DESC_URL 0) \<or> \<not> delivers_park (net TPC_AVAIL_URL 0) \<Longrightarrow>
   fst (fetchTaipeiData net p4 now) = []"
  by (auto simp: fetchTaipeiData_def fetch_def attempt_no_def delivers_park_def park_availMap_def
      TPC_DESC_URL_def TPC_AVAIL_URL_def split: response.splits json.splits option.splits)

lemma fetchNewTaipeiData_normalize:
  "fst (fetchNewTaipeiData net enc p4 ts now) =
     ntpc_normalize p4 now (fst (fetchAllNTPCData net enc ts NTPC_DESC_BASE_URL))
       (fst (fetchAllNTPCData net enc ts NTPC_AVAIL_BASE_URL))"
  by (simp add: fetchNewTaipeiData_def split: prod.splits)

section \<open>Sample runs\<close>

lemma sample_tpc_normalize:
  "tpc_normalize sample_projection 0 [sample_desc] [sample_avail] = [sample_lot]"
  by (simp add: tpc_normalize_def tpc_emit_def tpc_record_def tpc_availMap_def sample_desc_def
      sample_avail_def sample_lot_def parseFloat_300000 parseFloat_2770000 convertTWD97ToWGS84_def
      falsy_num_def sample_projection_def)

lemma sample_fetchTaipeiData:
  "fetchTaipeiData sample_net sample_projection 0 =
     ([sample_lot], [Fetch TPC_DESC_URL None, Fetch TPC_AVAIL_URL None])"
proof -
  have ne: "TPC_AVAIL_URL \<noteq> TPC_DESC_URL"
    by (simp add: TPC_AVAIL_URL_def TPC_DESC_URL_def)
  show ?thesis
    using ne
    by (simp add: fetchTaipeiData_def fetch_def sample_net_def park_availMap_def
        tpc_normalize_def [symmetric] sample_tpc_normalize)
qed

lemma sample_pages_desc:
  "fetchAllNTPCData sample_net enc 7 NTPC_DESC_BASE_URL =
     ([Some ntpc_desc_obj],
      [Fetch (page_url NTPC_DESC_BASE_URL 0 7) (Some 5000),
       Fetch (page_url NTPC_DESC_BASE_URL 1 7) (Some 5000)])"
proof -
  let ?u0 = "page_url NTPC_DESC_BASE_URL 0 7" and ?u1 = "page_url NTPC_DESC_BASE_URL 1 7"
  have u0: "?u0 \<noteq> TPC_DESC_URL" "?u0 \<noteq> TPC_AVAIL_URL"
    by (simp_all add: page_url_def NTPC_DESC_BASE_URL_def TPC_DESC_URL_def TPC_AVAIL_URL_def)
  have u1: "?u1 \<noteq> TPC_DESC_URL" "?u1 \<noteq> TPC_AVAIL_URL" "?u1 \<noteq> ?u0"
    "?u1 \<noteq> page_url NTPC_AVAIL_BASE_URL 0 7"
    by (simp_all add: page_url_def NTPC_DESC_BASE_URL_def NTPC_AVAIL_BASE_URL_def TPC_DESC_URL_def
        TPC_AVAIL_URL_def show_nat.simps)
  have f0: "fetchWithRetry sample_net enc ?u0 2 [] =
      (Inr (ArrayJson [Some ntpc_desc_obj]), [Fetch ?u0 (Some 5000)])"
    using u0 by (simp add: fetchWithRetry_direct sample_net_def)
  have f1: "fetchWithRetry sample_net enc ?u1 2 [Fetch ?u0 (Some 5000)] =
      (Inr (ArrayJson []), [Fetch ?u0 (Some 5000), Fetch ?u1 (Some 5000)])"
    using u1 by (simp add: fetchWithRetry_direct sample_net_def)
  show ?thesis
    unfolding fetchAllNTPCData_def
    using ntpc_pages_more [OF f0, of "[]"] ntpc_pages_stop [OF f1, of "[Some ntpc_desc_obj]"]
    by (simp add: ends_pagination_def)
qed


lemma sample_pages_avail:
  "fetchAllNTPCData sample_net enc 7 NTPC_AVAIL_BASE_URL =
     ([Some ntpc_avail_obj],
      [Fetch (page_url NTPC_AVAIL_BASE_URL 0 7) (Some 5000),
       Fetch (page_url NTPC_AVAIL_BASE_URL 1 7) (Some 5000)])"
proof -
  let ?u0 = "page_url NTPC_AVAIL_BASE_URL 0 7" and ?u1 = "page_url NTPC_AVAIL_BASE_URL 1 7"
  have u0: "?u0 \<noteq> TPC_DESC_URL" "?u0 \<noteq> TPC_AVAIL_URL" "?u0 \<noteq> page_url NTPC_DESC_BASE_URL 0 7"
    by (simp_all add: page_url_def NTPC_DESC_BASE_URL_def NTPC_AVAIL_BASE_URL_def TPC_DESC_URL_def
        TPC_AVAIL_URL_def)
  have u1: "?u1 \<noteq> TPC_DESC_URL" "?u1 \<noteq> TPC_AVAIL_URL" "?u1 \<noteq> ?u0"
    "?u1 \<noteq> page_url NTPC_DESC_BASE_URL 0 7"
    by (simp_all add: page_url_def NTPC_DESC_BASE_URL_def NTPC_AVAIL_BASE_URL_def TPC_DESC_URL_def
        TPC_AVAIL_URL_def show_nat.simps)
  have f0: "fetchWithRetry sample_net enc ?u0 2 [] =
      (Inr (ArrayJson [Some ntpc_avail_obj]), [Fetch ?u0 (Some 5000)])"
    using u0 by (simp add: fetchWithRetry_direct sample_net_def)
  have f1: "fetchWithRetry sample_net enc ?u1 2 [Fetch ?u0 (Some 5000)] =
      (Inr (ArrayJson []), [Fetch ?u0 (Some 5000), Fetch ?u1 (Some 5000)])"
    using u1 by (simp add: fetchWithRetry_direct sample_net_def)
  show ?thesis
    unfolding fetchAllNTPCData_def
    using ntpc_pages_more [OF f0, of "[]"] ntpc_pages_stop [OF f1, of "[Some ntpc_avail_obj]"]
    by (simp add: ends_pagination_def)
qed

lemma sample_ntpc_availMap:
  "ntpc_availMap [Some ntpc_avail_obj] = [Str ''A1'' \<mapsto> Fin (- 5)]"
  by (simp add: ntpc_availMap_def ntpc_avail_step_def ntpc_avail_obj_def prop_defs parseInt_minus5)

lemma sample_ntpc_record:
  "ntpc_record sample_projection 0 [Str ''A1'' \<mapsto> Fin (- 5)] (Some ntpc_desc_obj) = ntpc_lot"
  by (simp add: ntpc_record_def ntpc_desc_obj_def prop_defs parseInt_minus5 parseFloat_300000
      parseFloat_2770000 convertTWD97ToWGS84_def falsy_num_def sample_projection_def ntpc_lot_def)

lemma sample_ntpc_normalize:
  "ntpc_normalize sample_projection 0 [Some ntpc_desc_obj] [Some ntpc_avail_obj] = [ntpc_lot]"
  by (simp add: ntpc_normalize_def sample_ntpc_availMap sample_ntpc_record)
     (simp add: ntpc_lot_def truthy_def)

lemma sample_fetchNewTaipeiData:
  "fst (fetchNewTaipeiData sample_net enc sample_projection 7 0) = [ntpc_lot]"
  by (simp add: fetchNewTaipeiData_normalize sample_pages_desc sample_pages_avail
      sample_ntpc_normalize)

section \<open>Coordinates and identifiers of emitted records\<close>

text \<open>
  C8: no record whose latitude and longitude are both 0 is emitted by either source
  normalizer: every record in the output of \<open>fetchTaipeiData\<close> and of
  \<open>fetchNewTaipeiData\<close> has \<open>lat \<noteq> 0\<close> or \<open>lng \<noteq> 0\<close>, and a record of the paginated
  source has an identifier that is neither \<open>undefined\<close> nor empty.
\<close>

theorem no_zero_coordinates:
  "(r \<in> set (fst (fetchTaipeiData net p4 now)) \<longrightarrow> lat r \<noteq> Fin 0 \<or> lng r \<noteq> Fin 0) \<and>
   (r' \<in> set (fst (fetchNewTaipeiData net enc p4 ts now)) \<longrightarrow>
      (lat r' \<noteq> Fin 0 \<or> lng r' \<noteq> Fin 0) \<and> lot_id r' \<noteq> Undefined \<and> lot_id r' \<noteq> Str [])"
proof -
  have A: "lat r \<noteq> Fin 0 \<or> lng r \<noteq> Fin 0" if a: "r \<in> set (fst (fetchTaipeiData net p4 now))"
  proof -
    from fetchTaipeiData_cases [of net p4 now] a
    obtain ds am where "r \<in> set (tpc_emit p4 now am ds)" by auto
    then show ?thesis by (simp add: in_tpc_emit)
  qed
  have B: "(lat r' \<noteq> Fin 0 \<or> lng r' \<noteq> Fin 0) \<and> lot_id r' \<noteq> Undefined \<and> lot_id r' \<noteq> Str []"
    if b: "r' \<in> set (fst (fetchNewTaipeiData net enc p4 ts now))"
  proof -
    from b have "lat r' \<noteq> Fin 0 \<and> lng r' \<noteq> Fin 0 \<and> truthy (lot_id r')"
      unfolding fetchNewTaipeiData_normalize by (simp add: in_ntpc_normalize)
    then show ?thesis by (auto simp: truthy_def split: option.splits)
  qed
  from A B show ?thesis by blast
qed

theorem no_zero_coordinates_witness:
  "sample_lot \<in> set (fst (fetchTaipeiData sample_net sample_projection 0)) \<and>
   \<not> (lat sample_lot = Fin 0 \<and> lng sample_lot = Fin 0) \<and>
   ntpc_lot \<in> set (fst (fetchNewTaipeiData sample_net id sample_projection 7 0)) \<and>
   \<not> (lat ntpc_lot = Fin 0 \<and> lng ntpc_lot = Fin 0) \<and>
   lot_id ntpc_lot \<noteq> Undefined \<and> lot_id ntpc_lot \<noteq> Str []"
  using no_zero_coordinates [where r = sample_lot and net = sample_net and
      ?p4.0 = sample_projection and now = 0 and r' = ntpc_lot and enc = id and ts = 7]
  by (simp add: sample_fetchTaipeiData sample_fetchNewTaipeiData)

section \<open>Unparsable coordinates\<close>

lemma convert_falsy:
  "falsy_num x \<or> falsy_num y \<Longrightarrow> convertTWD97ToWGS84 p4 x y = (Fin 0, Fin 0)"
  by (simp add: convertTWD97ToWGS84_def)

lemma ntpc_record_nan:
  "parseFloat (getProp d ''TW97X'') = NaN \<or> parseFloat (getProp d ''TW97Y'') = NaN \<Longrightarrow>
   lat (ntpc_record p4 now m d) = Fin 0 \<and> lng (ntpc_record p4 now m d) = Fin 0"
  by (auto simp: ntpc_record_def Let_def convert_falsy falsy_num_def)

lemma tpc_record_nan:
  "parseFloat (Str (tw97x e)) = NaN \<or> parseFloat (Str (tw97y e)) = NaN \<Longrightarrow>
   lat (tpc_record p4 now m e) = Fin 0 \<and> lng (tpc_record p4 now m e) = Fin 0"
  by (auto simp: tpc_record_def Let_def convert_falsy falsy_num_def)

text \<open>
  C10: when \<open>x\<close> or \<open>y\<close> is \<open>NaN\<close>, \<open>convertTWD97ToWGS84\<close> returns exactly \<open>(0, 0)\<close>,
  whatever the projection library would do (it is the result for a zero input, reached
  before the library is called). Hence a description whose coordinate text parses to
  \<open>NaN\<close> gets the coordinates \<open>(0, 0)\<close> and is dropped by the filter of either
  normalizer: the output is the same as without that description.
\<close>

theorem nan_coordinates_dropped:
  "(x = NaN \<or> y = NaN \<longrightarrow>
      convertTWD97ToWGS84 p4 x y = (Fin 0, Fin 0) \<and>
      convertTWD97ToWGS84 p4 x y = convertTWD97ToWGS84 p4 (Fin 0) y) \<and>
   (parseFloat (getProp d ''TW97X'') = NaN \<or> parseFloat (getProp d ''TW97Y'') = NaN \<longrightarrow>
      lat (ntpc_record p4 now m d) = Fin 0 \<and> lng (ntpc_record p4 now m d) = Fin 0 \<and>
      ntpc_normalize p4 now (ds1 @ d # ds2) av = ntpc_normalize p4 now (ds1 @ ds2) av) \<and>
   (parseFloat (Str (tw97x e)) = NaN \<or> parseFloat (Str (tw97y e)) = NaN \<longrightarrow>
      lat (tpc_record p4 now m' e) = Fin 0 \<and> lng (tpc_record p4 now m' e) = Fin 0 \<and>
      tpc_normalize p4 now (es1 @ e # es2) av' = tpc_normalize p4 now (es1 @ es2) av')"
proof -
  have A: "convertTWD97ToWGS84 p4 x y = (Fin 0, Fin 0) \<and>
      convertTWD97ToWGS84 p4 x y = convertTWD97ToWGS84 p4 (Fin 0) y" if "x = NaN \<or> y = NaN"
    using that by (auto simp: convert_falsy falsy_num_def)
  have B: "lat (ntpc_record p4 now m d) = Fin 0 \<and> lng (ntpc_record p4 now m d) = Fin 0 \<and>
      ntpc_normalize p4 now (ds1 @ d # ds2) av = ntpc_normalize p4 now (ds1 @ ds2) av"
    if h: "parseFloat (getProp d ''TW97X'') = NaN \<or> parseFloat (getProp d ''TW97Y'') = NaN"
    using ntpc_record_nan [OF h, of p4 now m] ntpc_record_nan [OF h, of p4 now "ntpc_availMap av"]
    by (simp add: ntpc_normalize_def)
  have C: "lat (tpc_record p4 now m' e) = Fin 0 \<and> lng (tpc_record p4 now m' e) = Fin 0 \<and>
      tpc_normalize p4 now (es1 @ e # es2) av' = tpc_normalize p4 now (es1 @ es2) av'"
    if h: "parseFloat (Str (tw97x e)) = NaN \<or> parseFloat (Str (tw97y e)) = NaN"
    using tpc_record_nan [OF h, of p4 now m'] tpc_record_nan [OF h, of p4 now "tpc_availMap av'"]
    by (simp add: tpc_normalize_def tpc_emit_def)
  from A B C show ?thesis by blast
qed

theorem nan_coordinates_dropped_witness:
  "convertTWD97ToWGS84 sample_projection NaN (Fin 2770000) = (Fin 0, Fin 0) \<and>
   parseFloat (getProp (Some no_coords_obj) ''TW97X'') = NaN \<and>
   ntpc_normalize sample_projection 0 [Some no_coords_obj, Some ntpc_desc_obj] [Some ntpc_avail_obj]
     = [ntpc_lot] \<and>
   parseFloat (Str (tw97y no_coords_desc)) = NaN \<and>
   tpc_normalize sample_projection 0 [sample_desc, no_coords_desc] [sample_avail] = [sample_lot]"
proof -
  have h1: "parseFloat (getProp (Some no_coords_obj) ''TW97X'') = NaN"
    by (simp add: no_coords_obj_def prop_defs parseFloat_abc)
  have h2: "parseFloat (Str (tw97y no_coords_desc)) = NaN"
    by (simp add: no_coords_desc_def parseFloat_abc)
  show ?thesis
    using nan_coordinates_dropped [where x = NaN and y = "Fin 2770000" and ?p4.0 = sample_projection
        and d = "Some no_coords_obj" and now = 0 and ?ds1.0 = "[]" and ?ds2.0 = "[Some ntpc_desc_obj]"
        and av = "[Some ntpc_avail_obj]" and e = no_coords_desc and ?es1.0 = "[sample_desc]"
        and ?es2.0 = "[]" and av' = "[sample_avail]"] h1 h2
    by (simp add: sample_ntpc_normalize sample_tpc_normalize)
qed

section \<open>Tolerant lookup\<close>

text \<open>
  C2, as stated, fails: looked up under \<open>ID\<close>, the object \<open>{ID: "A1"}\<close> resolves to
  \<open>"A1"\<close> but the mixed-case object \<open>{Id: "A1"}\<close> resolves to \<open>undefined\<close>.
\<close>

theorem getProp_mixed_case_counterexample:
  "getProp (Some [(''ID'', ''A1'')]) ''ID'' = Str ''A1'' \<and>
   getProp (Some [(''Id'', ''A1'')]) ''ID'' = Undefined"
  by (simp add: prop_defs)

text \<open>
  C2, amended: for every field name, an object whose property read under the
  requested casing, its all-lowercase casing or its all-uppercase casing gives a
  non-empty string \<open>v\<close>, and whose reads under these three casings give no other truthy
  value (neither an own property nor a member inherited from \<open>Object.prototype\<close>, as
  for the name \<open>constructor\<close>), resolves to \<open>v\<close>; an object whose reads under all three
  casings are \<open>undefined\<close> resolves to \<open>undefined\<close>. When none of the three casings
  names an inherited member, the reads are those of the object's own properties. In
  particular, looked up under \<open>ID\<close>, \<open>{ID: "A1"}\<close> and \<open>{id: "A1"}\<close> resolve to
  \<open>"A1"\<close> and \<open>{Id: "A1"}\<close> resolves to \<open>undefined\<close>; looked up under
  \<open>constructor\<close>, every object without such an own property resolves to the inherited
  member.
\<close>

theorem getProp_three_casings:
  "(obj_get ob k' = Str v \<and> v \<noteq> [] \<and> k' \<in> {key, toLowerCase key, toUpperCase key} \<and>
    (\<forall>k'' \<in> {key, toLowerCase key, toUpperCase key}.
        truthy (obj_get ob k'') \<longrightarrow> obj_get ob k'' = Str v) \<longrightarrow>
      getProp (Some ob) key = Str v) \<and>
   (obj_get ob key = Undefined \<and> obj_get ob (toLowerCase key) = Undefined \<and>
    obj_get ob (toUpperCase key) = Undefined \<longrightarrow>
      getProp (Some ob) key = Undefined) \<and>
   (k \<notin> set object_prototype_members \<longrightarrow>
      obj_get ob k = (case map_of ob k of None \<Rightarrow> Undefined | Some s \<Rightarrow> Str s)) \<and>
   (map_of ob ''constructor'' = None \<longrightarrow>
      getProp (Some ob) ''constructor'' = Inherited ''constructor'') \<and>
   getProp (Some [(''ID'', ''A1'')]) ''ID'' = Str ''A1'' \<and>
   getProp (Some [(''id'', ''A1'')]) ''ID'' = Str ''A1'' \<and>
   getProp (Some [(''Id'', ''A1'')]) ''ID'' = Undefined"
proof -
  have A: "getProp (Some ob) key = Str v"
    if "obj_get ob k' = Str v \<and> v \<noteq> [] \<and> k' \<in> {key, toLowerCase key, toUpperCase key} \<and>
        (\<forall>k'' \<in> {key, toLowerCase key, toUpperCase key}.
            truthy (obj_get ob k'') \<longrightarrow> obj_get ob k'' = Str v)"
    using that by (auto simp: getProp_def js_or_def truthy_def split: jsvalue.splits)
  have B: "getProp (Some ob) key = Undefined"
    if "obj_get ob key = Undefined \<and> obj_get ob (toLowerCase key) = Undefined \<and>
        obj_get ob (toUpperCase key) = Undefined"
    using that by (simp add: getProp_def js_or_def truthy_def)
  have C: "obj_get ob k = (case map_of ob k of None \<Rightarrow> Undefined | Some s \<Rightarrow> Str s)"
    if "k \<notin> set object_prototype_members"
    using that by (simp add: obj_get_def split: option.splits)
  have D: "getProp (Some ob) ''constructor'' = Inherited ''constructor''"
    if "map_of ob ''constructor'' = None"
    using that
    by (simp add: getProp_def js_or_def truthy_def obj_get_def object_prototype_members_def)
  have E: "getProp (Some [(''ID'', ''A1'')]) ''ID'' = Str ''A1'' \<and>
      getProp (Some [(''id'', ''A1'')]) ''ID'' = Str ''A1'' \<and>
      getProp (Some [(''Id'', ''A1'')]) ''ID'' = Undefined"
    by (simp add: prop_defs)
  from A B C D E show ?thesis by blast
qed

theorem getProp_three_casings_witness:
  "getProp (Some [(''NAME'', ''x''), (''id'', ''A1'')]) ''ID'' = Str ''A1'' \<and>
   getProp (Some [(''TW97X'', ''1'')]) ''tw97x'' = Str ''1'' \<and>
   getProp (Some [(''Name'', ''x'')]) ''NAME'' = Undefined \<and>
   obj_get [(''Name'', ''x'')] ''NAME'' = Undefined \<and>
   getProp (Some [(''CONSTRUCTOR'', ''A1'')]) ''constructor'' = Inherited ''constructor''"
proof -
  have a: "getProp (Some [(''NAME'', ''x''), (''id'', ''A1'')]) ''ID'' = Str ''A1''"
    using getProp_three_casings [where ob = "[(''NAME'', ''x''), (''id'', ''A1'')]"
        and k' = "''id''" and v = "''A1''" and key = "''ID''" and k = "''ID''"]
    by (simp add: case_defs truthy_def obj_get_def object_prototype_members_def)
  have b: "getProp (Some [(''TW97X'', ''1'')]) ''tw97x'' = Str ''1''"
    using getProp_three_casings [where ob = "[(''TW97X'', ''1'')]"
        and k' = "''TW97X''" and v = "''1''" and key = "''tw97x''" and k = "''ID''"]
    by (simp add: case_defs truthy_def obj_get_def object_prototype_members_def)
  have c: "getProp (Some [(''Name'', ''x'')]) ''NAME'' = Undefined \<and>
      obj_get [(''Name'', ''x'')] ''NAME'' = Undefined"
    using getProp_three_casings [where ob = "[(''Name'', ''x'')]"
        and k' = "''Name''" and v = "''x''" and key = "''NAME''" and k = "''NAME''"]
    by (simp add: case_defs obj_get_def object_prototype_members_def)
  have d: "getProp (Some [(''CONSTRUCTOR'', ''A1'')]) ''constructor'' = Inherited ''constructor''"
    using getProp_three_casings [where ob = "[(''CONSTRUCTOR'', ''A1'')]"
        and k' = "''CONSTRUCTOR''" and v = "''A1''" and key = "''constructor''" and k = "''ID''"]
    by simp
  from a b c d show ?thesis by simp
qed

section \<open>Availability and capacity counts\<close>

lemma ntpc_availMap_snoc:
  "ntpc_availMap (arr @ [p]) = ntpc_avail_step (ntpc_availMap arr) p"
  by (simp add: ntpc_availMap_def)

lemma ntpc_availMap_last:
  "truthy k \<Longrightarrow>
   (case ntpc_availMap arr k of None \<Rightarrow> Fin (- 9) | Some a \<Rightarrow> a) = ntpc_last_value arr k"
proof (induction arr rule: rev_induct)
  case Nil
  then show ?case by (simp add: ntpc_availMap_def ntpc_last_value_def)
next
  case (snoc p arr)
  show ?case
  proof (cases "getProp p ''ID'' = k")
    case True
    with snoc.prems show ?thesis
      by (simp add: ntpc_availMap_snoc ntpc_avail_step_def Let_def ntpc_last_value_def)
  next
    case False
    then have "ntpc_availMap (arr @ [p]) k = ntpc_availMap arr k"
      by (simp add: ntpc_availMap_snoc ntpc_avail_step_def Let_def)
    moreover from False have "ntpc_last_value (arr @ [p]) k = ntpc_last_value arr k"
      by (simp add: ntpc_last_value_def)
    ultimately show ?thesis using snoc.IH [OF snoc.prems] by simp
  qed
qed

lemma ntpc_last_value_not_NaN: "ntpc_last_value arr k \<noteq> NaN"
  by (simp add: ntpc_last_value_def split: option.splits)

lemma tpc_availMap_snoc:
  "tpc_availMap (av @ [p]) = (tpc_availMap av)(avail_id p \<mapsto> Some (avail_availablecar p))"
  by (simp add: tpc_availMap_def)

lemma tpc_availMap_last:
  "(case tpc_availMap av s of Some (Some a) \<Rightarrow> a | _ \<Rightarrow> Fin (- 9)) = tpc_last_value av s"
proof (induction av rule: rev_induct)
  case Nil
  then show ?case by (simp add: tpc_availMap_def tpc_last_value_def)
next
  case (snoc p av)
  then show ?case by (simp add: tpc_availMap_snoc tpc_last_value_def)
qed

lemma tpc_availMap_of_desc_undefined:
  "(case tpc_availMap_of_desc ds s of Some (Some a) \<Rightarrow> a | _ \<Rightarrow> Fin (- 9)) = Fin (- 9)"
proof (induction ds rule: rev_induct)
  case Nil
  then show ?case by (simp add: tpc_availMap_of_desc_def)
next
  case (snoc p ds)
  then show ?case by (simp add: tpc_availMap_of_desc_def)
qed

lemma ntpc_record_fields:
  "lot_id (ntpc_record p4 now m d) = getProp d ''ID''"
  "totalcar (ntpc_record p4 now m d) =
     (if falsy_num (parseInt (getProp d ''TOTALCAR'')) then Fin 0
      else parseInt (getProp d ''TOTALCAR''))"
  "availablecar (ntpc_record p4 now m d) =
     (case m (getProp d ''ID'') of None \<Rightarrow> Fin (- 9) | Some a \<Rightarrow> a)"
  by (simp_all add: ntpc_record_def Let_def split: prod.splits)

lemma tpc_record_fields:
  "lot_id (tpc_record p4 now m e) = Str (desc_id e)"
  "totalcar (tpc_record p4 now m e) = desc_totalcar e"
  "availablecar (tpc_record p4 now m e) =
     (case m (desc_id e) of Some (Some a) \<Rightarrow> a | _ \<Rightarrow> Fin (- 9))"
  by (simp_all add: tpc_record_def Let_def split: prod.splits)

lemma parseInt_whole:
  "parseInt v = NaN \<or> parseInt v \<in> {PosInf, NegInf} \<or> (\<exists>k::int. parseInt v = Fin (of_int k))"
proof (cases v)
  case Undefined
  then show ?thesis by (simp add: parseInt_def)
next
  case (Inherited n)
  then show ?thesis by (simp add: parseInt_def)
next
  case (Str s)
  obtain neg u where su: "split_sign (dropWhile is_ws s) = (neg, u)" by force
  have w: "to_number (of_int k) \<in> {PosInf, NegInf} \<or> (\<exists>j::int. to_number (of_int k) = Fin (of_int j))"
    for k :: int
  proof (cases "to_number (of_int k) = Fin (of_int k)")
    case True
    then show ?thesis by blast
  next
    case False
    then have "to_number (of_int k) \<in> {PosInf, NegInf} \<or> to_number (of_int k) = Fin (of_int 0)"
      by (auto simp: to_number_def split: if_splits)
    then show ?thesis by blast
  qed
  show ?thesis
  proof (cases "takeWhile is_digit u = []")
    case True
    with Str su show ?thesis by (simp add: parseInt_def)
  next
    case False
    let ?n = "digits_val (takeWhile is_digit u)"
    from Str su False have "parseInt v = to_number (of_int (if neg then - int ?n else int ?n))"
      by (simp add: parseInt_def)
    with w show ?thesis by presburger
  qed
qed

lemma ntpc_last_value_whole:
  "ntpc_last_value arr k \<in> {PosInf, NegInf} \<or> (\<exists>j::int. ntpc_last_value arr k = Fin (of_int j))"
proof -
  have m9: "Fin (- 9) = Fin (of_int (- 9))" by simp
  show ?thesis
  proof (cases "find (\<lambda>p. getProp p ''ID'' = k) (rev arr)")
    case None
    with m9 show ?thesis unfolding ntpc_last_value_def by (metis option.simps(4))
  next
    case (Some p)
    show ?thesis
    proof (cases "parseInt (getProp p ''AVAILABLECAR'') = NaN")
      case True
      with Some have "ntpc_last_value arr k = Fin (of_int (- 9))"
        by (simp add: ntpc_last_value_def)
      then show ?thesis by blast
    next
      case False
      with Some have "ntpc_last_value arr k = parseInt (getProp p ''AVAILABLECAR'')"
        by (simp add: ntpc_last_value_def)
      with False parseInt_whole [of "getProp p ''AVAILABLECAR''"] show ?thesis by auto
    qed
  qed
qed

lemma negative_fetchTaipeiData:
  "fst (fetchTaipeiData negative_net sample_projection 0) = [negative_lot]"
proof -
  have ne: "TPC_AVAIL_URL \<noteq> TPC_DESC_URL"
    by (simp add: TPC_AVAIL_URL_def TPC_DESC_URL_def)
  show ?thesis
    using ne
    by (simp add: fetchTaipeiData_def fetch_def negative_net_def sample_net_def park_availMap_def
        tpc_emit_def tpc_record_def tpc_availMap_def sample_desc_def negative_avail_def
        negative_lot_def parseFloat_300000 parseFloat_2770000 convertTWD97ToWGS84_def
        falsy_num_def sample_projection_def)
qed

lemma desc_twice_fetchTaipeiData:
  "fst (fetchTaipeiData desc_twice_net sample_projection 0) = [unknown_lot]"
proof -
  have ne: "TPC_AVAIL_URL \<noteq> TPC_DESC_URL"
    by (simp add: TPC_AVAIL_URL_def TPC_DESC_URL_def)
  show ?thesis
    using ne
    by (simp add: fetchTaipeiData_def fetch_def desc_twice_net_def sample_net_def park_availMap_def
        tpc_emit_def tpc_record_def tpc_availMap_of_desc_def sample_desc_def
        unknown_lot_def parseFloat_300000 parseFloat_2770000 convertTWD97ToWGS84_def
        falsy_num_def sample_projection_def)
qed

text \<open>
  C1, as stated, fails: an availability text \<open>"-5"\<close> of the paginated source, and an
  availability number \<open>-5\<close> of the stable-schema source, are emitted as \<open>-5\<close>, which is
  neither a non-negative count nor one of the four sentinels.
\<close>

theorem availablecar_counterexample:
  "map availablecar (fst (fetchNewTaipeiData sample_net id sample_projection 7 0)) = [Fin (- 5)] \<and>
   map availablecar (tpc_normalize sample_projection 0 [sample_desc] [negative_avail]) = [Fin (- 5)] \<and>
   \<not> spec_available_ok (Fin (- 5))"
  by (simp add: sample_fetchNewTaipeiData ntpc_lot_def spec_available_ok_def
      tpc_normalize_def tpc_emit_def tpc_record_def tpc_availMap_def sample_desc_def
      negative_avail_def parseFloat_300000 parseFloat_2770000 convertTWD97ToWGS84_def
      falsy_num_def sample_projection_def)

text \<open>
  C1, amended: the \<open>availablecar\<close> of a record emitted by the paginated source is the
  value that the availability entries give for the record's identifier: the whole
  number parsed from the \<open>AVAILABLECAR\<close> text of the last entry with that identifier,
  with its sign kept (so \<open>-5\<close> is emitted as it is; infinite when the text is beyond the
  range of a Number), and \<open>-9\<close> when that text does not parse or no entry has the
  identifier; it is never \<open>NaN\<close>. The \<open>availablecar\<close> of a record emitted by the
  stable-schema source is the unchanged \<open>availablecar\<close> number of the last availability
  entry with the record's identifier, and \<open>-9\<close> when there is none or when the
  availability body holds objects without \<open>availablecar\<close>.
\<close>

theorem availablecar_values:
  "(r \<in> set (fst (fetchNewTaipeiData net enc p4 ts now)) \<longrightarrow>
      availablecar r =
        ntpc_last_value (fst (fetchAllNTPCData net enc ts NTPC_AVAIL_BASE_URL)) (lot_id r) \<and>
      availablecar r \<noteq> NaN \<and>
      (availablecar r \<in> {PosInf, NegInf} \<or> (\<exists>k::int. availablecar r = Fin (of_int k)))) \<and>
   (getProp p ''ID'' = ident \<and> parseInt (getProp p ''AVAILABLECAR'') \<noteq> NaN \<longrightarrow>
      ntpc_last_value (arr @ [p]) ident = parseInt (getProp p ''AVAILABLECAR'')) \<and>
   (getProp p ''ID'' = ident \<and> parseInt (getProp p ''AVAILABLECAR'') = NaN \<longrightarrow>
      ntpc_last_value (arr @ [p]) ident = Fin (- 9)) \<and>
   (getProp p ''ID'' \<noteq> ident \<longrightarrow> ntpc_last_value (arr @ [p]) ident = ntpc_last_value arr ident) \<and>
   ((\<forall>x\<in>set arr. getProp x ''ID'' \<noteq> ident) \<longrightarrow> ntpc_last_value arr ident = Fin (- 9)) \<and>
   (r' \<in> set (fst (fetchTaipeiData net p4 now)) \<and> net TPC_AVAIL_URL 0 = OkJson (AvailJson av) \<longrightarrow>
      (\<exists>s. lot_id r' = Str s \<and> availablecar r' = tpc_last_value av s)) \<and>
   (r' \<in> set (fst (fetchTaipeiData net p4 now)) \<and> net TPC_AVAIL_URL 0 = OkJson (DescJson others) \<longrightarrow>
      availablecar r' = Fin (- 9)) \<and>
   (avail_id q = s' \<longrightarrow> tpc_last_value (av' @ [q]) s' = avail_availablecar q) \<and>
   (avail_id q \<noteq> s' \<longrightarrow> tpc_last_value (av' @ [q]) s' = tpc_last_value av' s') \<and>
   ((\<forall>x\<in>set av'. avail_id x \<noteq> s') \<longrightarrow> tpc_last_value av' s' = Fin (- 9))"
proof -
  have A: "availablecar r =
        ntpc_last_value (fst (fetchAllNTPCData net enc ts NTPC_AVAIL_BASE_URL)) (lot_id r) \<and>
      availablecar r \<noteq> NaN \<and>
      (availablecar r \<in> {PosInf, NegInf} \<or> (\<exists>k::int. availablecar r = Fin (of_int k)))"
    if a: "r \<in> set (fst (fetchNewTaipeiData net enc p4 ts now))"
  proof -
    let ?av = "fst (fetchAllNTPCData net enc ts NTPC_AVAIL_BASE_URL)"
    from a obtain d0 where r: "r = ntpc_record p4 now (ntpc_availMap ?av) d0"
      and t: "truthy (lot_id r)"
      unfolding fetchNewTaipeiData_normalize using in_ntpc_normalize by blast
    from t have t': "truthy (getProp d0 ''ID'')" by (simp add: r ntpc_record_fields)
    have "availablecar r = ntpc_last_value ?av (lot_id r)"
      using ntpc_availMap_last [OF t', of ?av] by (simp add: r ntpc_record_fields)
    with ntpc_last_value_not_NaN [of ?av "lot_id r"] ntpc_last_value_whole [of ?av "lot_id r"]
    show ?thesis by simp
  qed
  have B1: "ntpc_last_value (arr @ [p]) ident = parseInt (getProp p ''AVAILABLECAR'')"
    if "getProp p ''ID'' = ident \<and> parseInt (getProp p ''AVAILABLECAR'') \<noteq> NaN"
    using that by (simp add: ntpc_last_value_def)
  have B2: "ntpc_last_value (arr @ [p]) ident = Fin (- 9)"
    if "getProp p ''ID'' = ident \<and> parseInt (getProp p ''AVAILABLECAR'') = NaN"
    using that by (simp add: ntpc_last_value_def)
  have B3: "ntpc_last_value (arr @ [p]) ident = ntpc_last_value arr ident"
    if "getProp p ''ID'' \<noteq> ident"
    using that by (simp add: ntpc_last_value_def)
  have B4: "ntpc_last_value arr ident = Fin (- 9)" if "\<forall>x\<in>set arr. getProp x ''ID'' \<noteq> ident"
  proof -
    from that have "find (\<lambda>p. getProp p ''ID'' = ident) (rev arr) = None"
      by (simp add: find_None_iff)
    then show ?thesis by (simp add: ntpc_last_value_def)
  qed
  have C: "(\<exists>s. lot_id r' = Str s \<and> availablecar r' = tpc_last_value av s)"
    if c: "r' \<in> set (fst (fetchTaipeiData net p4 now)) \<and>
        net TPC_AVAIL_URL 0 = OkJson (AvailJson av)"
  proof -
    from fetchTaipeiData_cases [of net p4 now] c
    obtain ds am where m: "r' \<in> set (tpc_emit p4 now am ds)"
      and am: "park_availMap (AvailJson av) = Some am" by auto
    from am have am': "am = tpc_availMap av" by (simp add: park_availMap_def)
    from in_tpc_emit [OF m] obtain e where r: "r' = tpc_record p4 now am e" by blast
    have "lot_id r' = Str (desc_id e) \<and> availablecar r' = tpc_last_value av (desc_id e)"
      using tpc_availMap_last [of av "desc_id e"] by (simp add: r am' tpc_record_fields)
    then show ?thesis by blast
  qed
  have D: "availablecar r' = Fin (- 9)"
    if c: "r' \<in> set (fst (fetchTaipeiData net p4 now)) \<and>
        net TPC_AVAIL_URL 0 = OkJson (DescJson others)"
  proof -
    from fetchTaipeiData_cases [of net p4 now] c
    obtain ds am where m: "r' \<in> set (tpc_emit p4 now am ds)"
      and am: "park_availMap (DescJson others) = Some am" by auto
    from am have am': "am = tpc_availMap_of_desc others" by (simp add: park_availMap_def)
    from in_tpc_emit [OF m] obtain e where r: "r' = tpc_record p4 now am e" by blast
    show ?thesis
      using tpc_availMap_of_desc_undefined [of others "desc_id e"]
      by (simp add: r am' tpc_record_fields)
  qed
  have E1: "tpc_last_value (av' @ [q]) s' = avail_availablecar q" if "avail_id q = s'"
    using that by (simp add: tpc_last_value_def)
  have E2: "tpc_last_value (av' @ [q]) s' = tpc_last_value av' s'" if "avail_id q \<noteq> s'"
    using that by (simp add: tpc_last_value_def)
  have E3: "tpc_last_value av' s' = Fin (- 9)" if "\<forall>x\<in>set av'. avail_id x \<noteq> s'"
  proof -
    from that have "find (\<lambda>p. avail_id p = s') (rev av') = None"
      by (simp add: find_None_iff)
    then show ?thesis by (simp add: tpc_last_value_def)
  qed
  from A B1 B2 B3 B4 C D E1 E2 E3 show ?thesis by blast
qed

theorem availablecar_values_witness:
  "ntpc_lot \<in> set (fst (fetchNewTaipeiData sample_net id sample_projection 7 0)) \<and>
   availablecar ntpc_lot = ntpc_last_value [Some ntpc_avail_obj] (Str ''A1'') \<and>
   ntpc_last_value ([Some unparsable_avail_obj] @ [Some ntpc_avail_obj]) (Str ''A1'') = Fin (- 5) \<and>
   ntpc_last_value ([Some ntpc_avail_obj] @ [Some unparsable_avail_obj]) (Str ''B2'') = Fin (- 9) \<and>
   ntpc_last_value ([Some ntpc_avail_obj] @ [Some unparsable_avail_obj]) (Str ''A1'') = Fin (- 5) \<and>
   ntpc_last_value [Some ntpc_avail_obj] (Str ''B2'') = Fin (- 9) \<and>
   negative_lot \<in> set (fst (fetchTaipeiData negative_net sample_projection 0)) \<and>
   availablecar negative_lot = tpc_last_value [negative_avail] ''P1'' \<and>
   unknown_lot \<in> set (fst (fetchTaipeiData desc_twice_net sample_projection 0)) \<and>
   availablecar unknown_lot = Fin (- 9) \<and>
   tpc_last_value ([sample_avail] @ [negative_avail]) ''P1'' = Fin (- 5) \<and>
   tpc_last_value ([] @ [sample_avail]) ''P2'' = Fin (- 9)"
proof -
  have ids: "getProp (Some ntpc_avail_obj) ''ID'' = Str ''A1''"
    "getProp (Some unparsable_avail_obj) ''ID'' = Str ''B2''"
    "parseInt (getProp (Some ntpc_avail_obj) ''AVAILABLECAR'') = Fin (- 5)"
    "parseInt (getProp (Some unparsable_avail_obj) ''AVAILABLECAR'') = NaN"
    by (simp_all add: ntpc_avail_obj_def unparsable_avail_obj_def prop_defs parseInt_minus5
        parseInt_words)
  have ne: "TPC_AVAIL_URL \<noteq> TPC_DESC_URL"
    by (simp add: TPC_AVAIL_URL_def TPC_DESC_URL_def)
  note t1 = availablecar_values [where r = ntpc_lot and net = sample_net and enc = id
      and ?p4.0 = sample_projection and ts = 7 and now = 0
      and p = "Some ntpc_avail_obj" and ident = "Str ''A1''"
      and arr = "[Some unparsable_avail_obj]"
      and r' = sample_lot and av = "[sample_avail]" and others = "[]"
      and q = negative_avail and s' = "''P1''" and av' = "[sample_avail]"]
  note t2 = availablecar_values [where r = ntpc_lot and net = negative_net and enc = id
      and ?p4.0 = sample_projection and ts = 7 and now = 0
      and p = "Some unparsable_avail_obj" and ident = "Str ''B2''"
      and arr = "[Some ntpc_avail_obj]"
      and r' = negative_lot and av = "[negative_avail]" and others = "[]"
      and q = sample_avail and s' = "''P2''" and av' = "[]"]
  note t3 = availablecar_values [where r = ntpc_lot and net = desc_twice_net and enc = id
      and ?p4.0 = sample_projection and ts = 7 and now = 0
      and p = "Some unparsable_avail_obj" and ident = "Str ''A1''"
      and arr = "[Some ntpc_avail_obj]"
      and r' = unknown_lot and av = "[]" and others = "[sample_desc]"
      and q = sample_avail and s' = "''P2''" and av' = "[]"]
  note t4 = availablecar_values [where r = ntpc_lot and net = sample_net and enc = id
      and ?p4.0 = sample_projection and ts = 7 and now = 0
      and p = "Some unparsable_avail_obj" and ident = "Str ''B2''"
      and arr = "[Some ntpc_avail_obj]"
      and r' = sample_lot and av = "[sample_avail]" and others = "[]"
      and q = sample_avail and s' = "''P2''" and av' = "[]"]
  have a: "ntpc_lot \<in> set (fst (fetchNewTaipeiData sample_net id sample_projection 7 0))"
    by (simp add: sample_fetchNewTaipeiData)
  have b: "availablecar ntpc_lot = ntpc_last_value [Some ntpc_avail_obj] (Str ''A1'')"
    using t1 a by (simp add: sample_pages_avail ntpc_lot_def)
  have c: "ntpc_last_value ([Some unparsable_avail_obj] @ [Some ntpc_avail_obj]) (Str ''A1'')
      = Fin (- 5)"
    using t1 ids by simp
  have d: "ntpc_last_value ([Some ntpc_avail_obj] @ [Some unparsable_avail_obj]) (Str ''B2'')
      = Fin (- 9)"
    using t2 ids by simp
  have f: "ntpc_last_value [Some ntpc_avail_obj] (Str ''B2'') = Fin (- 9)"
    using t4 ids by simp
  have e: "ntpc_last_value ([Some ntpc_avail_obj] @ [Some unparsable_avail_obj]) (Str ''A1'')
      = Fin (- 5)"
    using t3 ids c t1 by (simp add: ntpc_last_value_def)
  have g: "negative_lot \<in> set (fst (fetchTaipeiData negative_net sample_projection 0))"
    by (simp add: negative_fetchTaipeiData)
  have h: "availablecar negative_lot = tpc_last_value [negative_avail] ''P1''"
    using t2 g ne by (auto simp: negative_net_def negative_lot_def)
  have i: "unknown_lot \<in> set (fst (fetchTaipeiData desc_twice_net sample_projection 0))"
    by (simp add: desc_twice_fetchTaipeiData)
  have j: "availablecar unknown_lot = Fin (- 9)"
    using t3 i by (simp add: desc_twice_net_def)
  have k: "tpc_last_value ([sample_avail] @ [negative_avail]) ''P1'' = Fin (- 5)"
    using t1 by (simp add: negative_avail_def)
  have l: "tpc_last_value ([] @ [sample_avail]) ''P2'' = Fin (- 9)"
    using t2 by (simp add: sample_avail_def tpc_last_value_def)
  from a b c d e f g h i j k l show ?thesis by simp
qed

text \<open>
  C9, as stated, fails: a capacity text \<open>"-5"\<close> of the paginated source is emitted as
  the negative \<open>totalcar\<close> \<open>-5\<close>.
\<close>

theorem totalcar_counterexample:
  "map totalcar (fst (fetchNewTaipeiData sample_net id sample_projection 7 0)) = [Fin (- 5)] \<and>
   \<not> spec_total_ok (Fin (- 5))"
  by (simp add: sample_fetchNewTaipeiData ntpc_lot_def spec_total_ok_def)

text \<open>
  C9, amended: a record emitted by the paginated source never has \<open>NaN\<close> as \<open>totalcar\<close>:
  the value is 0 when the \<open>TOTALCAR\<close> text of its description is unparsable, and
  otherwise the whole number parsed from that text with its sign kept (infinite when
  the text is beyond the range of a Number). A record emitted by the stable-schema
  source carries the unchanged \<open>totalcar\<close> number of its description.
\<close>

theorem totalcar_values:
  "(r \<in> set (fst (fetchNewTaipeiData net enc p4 ts now)) \<longrightarrow>
      totalcar r \<noteq> NaN \<and>
      (totalcar r \<in> {PosInf, NegInf} \<or> (\<exists>k::int. totalcar r = Fin (of_int k))) \<and>
      (\<exists>d\<in>set (fst (fetchAllNTPCData net enc ts NTPC_DESC_BASE_URL)).
          lot_id r = getProp d ''ID'' \<and>
          totalcar r = (if parseInt (getProp d ''TOTALCAR'') = NaN then Fin 0
                        else parseInt (getProp d ''TOTALCAR'')))) \<and>
   (parseInt (getProp d ''TOTALCAR'') = NaN \<longrightarrow> totalcar (ntpc_record p4 now m d) = Fin 0) \<and>
   (r' \<in> set (fst (fetchTaipeiData net p4 now)) \<longrightarrow>
      (\<exists>ds. net TPC_DESC_URL 0 = OkJson (DescJson ds) \<and>
         (\<exists>e\<in>set ds. lot_id r' = Str (desc_id e) \<and> totalcar r' = desc_totalcar e)))"
proof -
  have T: "totalcar (ntpc_record p4 now m' d') =
      (if parseInt (getProp d' ''TOTALCAR'') = NaN then Fin 0 else parseInt (getProp d' ''TOTALCAR''))"
    for m' d'
    by (auto simp: ntpc_record_fields falsy_num_def)
  have A: "totalcar r \<noteq> NaN \<and>
      (totalcar r \<in> {PosInf, NegInf} \<or> (\<exists>k::int. totalcar r = Fin (of_int k))) \<and>
      (\<exists>d\<in>set (fst (fetchAllNTPCData net enc ts NTPC_DESC_BASE_URL)).
          lot_id r = getProp d ''ID'' \<and>
          totalcar r = (if parseInt (getProp d ''TOTALCAR'') = NaN then Fin 0
                        else parseInt (getProp d ''TOTALCAR'')))"
    if a: "r \<in> set (fst (fetchNewTaipeiData net enc p4 ts now))"
  proof -
    let ?ds = "fst (fetchAllNTPCData net enc ts NTPC_DESC_BASE_URL)"
    let ?m = "ntpc_availMap (fst (fetchAllNTPCData net enc ts NTPC_AVAIL_BASE_URL))"
    from a obtain d0 where d0: "d0 \<in> set ?ds" and r: "r = ntpc_record p4 now ?m d0"
      unfolding fetchNewTaipeiData_normalize using in_ntpc_normalize by blast
    have t: "totalcar r = (if parseInt (getProp d0 ''TOTALCAR'') = NaN then Fin 0
        else parseInt (getProp d0 ''TOTALCAR''))"
      by (simp add: r T)
    have i: "lot_id r = getProp d0 ''ID''" by (simp add: r ntpc_record_fields)
    have n: "totalcar r \<noteq> NaN" by (simp add: t)
    have "Fin 0 = Fin (of_int 0)" by simp
    with parseInt_whole [of "getProp d0 ''TOTALCAR''"] t
    have w: "totalcar r \<in> {PosInf, NegInf} \<or> (\<exists>k::int. totalcar r = Fin (of_int k))"
      by (metis (full_types))
    from n w d0 i t show ?thesis by blast
  qed
  have B: "totalcar (ntpc_record p4 now m d) = Fin 0" if "parseInt (getProp d ''TOTALCAR'') = NaN"
    using that by (simp add: T)
  have C: "\<exists>ds. net TPC_DESC_URL 0 = OkJson (DescJson ds) \<and>
         (\<exists>e\<in>set ds. lot_id r' = Str (desc_id e) \<and> totalcar r' = desc_totalcar e)"
    if c: "r' \<in> set (fst (fetchTaipeiData net p4 now))"
  proof -
    from fetchTaipeiData_cases [of net p4 now] c
    obtain ds am where n: "net TPC_DESC_URL 0 = OkJson (DescJson ds)"
      and m: "r' \<in> set (tpc_emit p4 now am ds)" by auto
    from in_tpc_emit [OF m] obtain e where e: "e \<in> set ds"
      and r: "r' = tpc_record p4 now am e"
      by blast
    have "lot_id r' = Str (desc_id e) \<and> totalcar r' = desc_totalcar e"
      by (simp add: r tpc_record_fields)
    with n e show ?thesis by blast
  qed
  from A B C show ?thesis by blast
qed

theorem totalcar_values_witness:
  "ntpc_lot \<in> set (fst (fetchNewTaipeiData sample_net id sample_projection 7 0)) \<and>
   totalcar ntpc_lot \<noteq> NaN \<and>
   parseInt (getProp (Some unparsable_desc_obj) ''TOTALCAR'') = NaN \<and>
   totalcar (ntpc_record sample_projection 0 Map.empty (Some unparsable_desc_obj)) = Fin 0 \<and>
   sample_lot \<in> set (fst (fetchTaipeiData sample_net sample_projection 0))"
proof -
  have h: "parseInt (getProp (Some unparsable_desc_obj) ''TOTALCAR'') = NaN"
    by (simp add: unparsable_desc_obj_def prop_defs parseInt_words)
  show ?thesis
    using totalcar_values [where r = ntpc_lot and net = sample_net and enc = id
        and ?p4.0 = sample_projection and ts = 7 and now = 0
        and d = "Some unparsable_desc_obj" and m = Map.empty and r' = sample_lot] h
    by (simp add: sample_fetchNewTaipeiData sample_fetchTaipeiData)
qed

section \<open>Events of one resilient fetch\<close>

lemma relay_done: "\<not> i \<le> r \<Longrightarrow> relay_attempts net p r i evs = (None, evs)"
  by (subst relay_attempts.simps) simp

lemma relay_ok:
  "i \<le> r \<Longrightarrow> net p (attempt_no evs p) = OkJson j \<Longrightarrow>
   relay_attempts net p r i evs = (Some j, evs @ [Fetch p (Some 8000)])"
  by (subst relay_attempts.simps) (simp add: fetch_def)

lemma relay_not_json:
  "i \<le> r \<Longrightarrow> net p (attempt_no evs p) = OkNotJson \<Longrightarrow>
   relay_attempts net p r i evs = (None, evs @ [Fetch p (Some 8000)])"
  by (subst relay_attempts.simps) (simp add: fetch_def)

lemma relay_not_ok:
  "i \<le> r \<Longrightarrow> net p (attempt_no evs p) = NotOk \<Longrightarrow>
   relay_attempts net p r i evs = relay_attempts net p r (i + 1) (evs @ [Fetch p (Some 8000)])"
  by (subst relay_attempts.simps) (simp add: fetch_def)

lemma relay_failed:
  "i \<le> r \<Longrightarrow> net p (attempt_no evs p) \<in> {Rejected, OkBodyError} \<Longrightarrow>
   relay_attempts net p r i evs =
     relay_attempts net p r (i + 1)
       (if i = r then evs @ [Fetch p (Some 8000)]
        else evs @ [Fetch p (Some 8000), Sleep (500 * (i + 1))])"
  by (subst relay_attempts.simps) (auto simp: fetch_def)

lemma event_kinds:
  "\<not> is_direct (Fetch p (Some 8000))" "is_fetch (Fetch p t)" "\<not> is_direct (Sleep n)"
  "\<not> is_fetch (Sleep n)" "is_direct (Fetch p (Some 5000))" "\<not> is_direct (Fetch p None)"
  by (simp_all add: is_direct_def is_fetch_def)

lemma relay_attempts_appends:
  "\<exists>new. snd (relay_attempts net p r i evs) = evs @ new \<and> filter is_direct new = [] \<and>
     length (filter is_fetch new) \<le> r + 1 - i"
proof (induction "r + 1 - i" arbitrary: i evs)
  case 0
  then have "\<not> i \<le> r" by simp
  then show ?case by (simp add: relay_done)
next
  case (Suc n)
  then have le: "i \<le> r" and n: "n = r + 1 - (i + 1)" by simp_all
  let ?F = "Fetch p (Some 8000)"
  have IH: "\<exists>new. snd (relay_attempts net p r (i + 1) (evs @ pre)) = evs @ pre @ new \<and>
      filter is_direct new = [] \<and> length (filter is_fetch new) \<le> n" for pre
    using Suc.hyps(1) [OF n, of "evs @ pre"] n by simp
  consider (ok) j where "net p (attempt_no evs p) = OkJson j"
    | (nj) "net p (attempt_no evs p) = OkNotJson"
    | (no) "net p (attempt_no evs p) = NotOk"
    | (fl) "net p (attempt_no evs p) \<in> {Rejected, OkBodyError}"
    by (cases "net p (attempt_no evs p)") auto
  then show ?case
  proof cases
    case ok
    with le show ?thesis by (simp add: relay_ok event_kinds)
  next
    case nj
    with le show ?thesis by (simp add: relay_not_json event_kinds)
  next
    case no
    from IH [of "[?F]"] obtain new where
      "snd (relay_attempts net p r (i + 1) (evs @ [?F])) = evs @ [?F] @ new"
      "filter is_direct new = []" "length (filter is_fetch new) \<le> n" by auto
    with le no n show ?thesis by (simp add: relay_not_ok event_kinds)
  next
    case fl
    show ?thesis
    proof (cases "i = r")
      case True
      from IH [of "[?F]"] obtain new where
        "snd (relay_attempts net p r (i + 1) (evs @ [?F])) = evs @ [?F] @ new"
        "filter is_direct new = []" "length (filter is_fetch new) \<le> n" by auto
      with le fl n True show ?thesis by (simp add: relay_failed event_kinds)
    next
      case False
      from IH [of "[?F, Sleep (500 * (i + 1))]"] obtain new where
        "snd (relay_attempts net p r (i + 1) (evs @ [?F, Sleep (500 * (i + 1))])) =
           evs @ [?F, Sleep (500 * (i + 1))] @ new"
        "filter is_direct new = []" "length (filter is_fetch new) \<le> n" by auto
      with le fl n False show ?thesis by (simp add: relay_failed event_kinds)
    qed
  qed
qed

lemma relay_attempts_first:
  "\<exists>rest. snd (relay_attempts net p r 0 evs) = evs @ Fetch p (Some 8000) # rest"
proof -
  let ?F = "Fetch p (Some 8000)"
  have ap: "\<exists>new. snd (relay_attempts net p r 1 (evs @ pre)) = evs @ pre @ new" for pre
    using relay_attempts_appends [of net p r 1 "evs @ pre"] by auto
  consider (ok) j where "net p (attempt_no evs p) = OkJson j"
    | (nj) "net p (attempt_no evs p) = OkNotJson"
    | (no) "net p (attempt_no evs p) = NotOk"
    | (fl) "net p (attempt_no evs p) \<in> {Rejected, OkBodyError}"
    by (cases "net p (attempt_no evs p)") auto
  then show ?thesis
  proof cases
    case ok
    then show ?thesis by (simp add: relay_ok)
  next
    case nj
    then show ?thesis by (simp add: relay_not_json)
  next
    case no
    with ap [of "[?F]"] show ?thesis by (auto simp: relay_not_ok)
  next
    case fl
    with ap [of "[?F]"] ap [of "[?F, Sleep (500 * (0 + 1))]"] show ?thesis
      by (cases "0 = r") (auto simp: relay_failed)
  qed
qed

lemma try_proxies_appends:
  "\<exists>new. snd (try_proxies net url ps r evs) = evs @ new \<and> filter is_direct new = [] \<and>
     length (filter is_fetch new) \<le> length ps * (r + 1)"
proof (induction ps arbitrary: evs)
  case Nil
  then show ?case by simp
next
  case (Cons p ps)
  obtain x e1 where ra: "relay_attempts net p r 0 evs = (x, e1)" by force
  from relay_attempts_appends [of net p r 0 evs] ra obtain n1 where
    n1: "e1 = evs @ n1" "filter is_direct n1 = []" "length (filter is_fetch n1) \<le> r + 1"
    by auto
  show ?case
  proof (cases x)
    case (Some j)
    with ra have "try_proxies net url (p # ps) r evs = (Inr j, e1)" by simp
    with n1 show ?thesis by auto
  next
    case None
    with ra have e: "try_proxies net url (p # ps) r evs = try_proxies net url ps r e1" by simp
    from Cons.IH [of e1] obtain n2 where
      "snd (try_proxies net url ps r e1) = e1 @ n2" "filter is_direct n2 = []"
      "length (filter is_fetch n2) \<le> length ps * (r + 1)" by auto
    with n1 e show ?thesis by auto
  qed
qed

lemma fetchWithRetry_appends:
  "\<exists>new. snd (fetchWithRetry net enc url r evs) = evs @ Fetch url (Some 5000) # new \<and>
     filter is_direct new = [] \<and> length (filter is_fetch new) \<le> 2 * (r + 1)"
proof (cases "\<exists>j. net url (attempt_no evs url) = OkJson j")
  case True
  then show ?thesis by (auto simp: fetchWithRetry_direct)
next
  case False
  let ?e1 = "evs @ [Fetch url (Some 5000)]"
  let ?ps = "map (\<lambda>proxyFn. proxyFn url) (PROXIES enc)"
  from False have "fetchWithRetry net enc url r evs = try_proxies net url ?ps r ?e1"
    by (auto simp: fetchWithRetry_def fetch_def split: response.splits)
  moreover have "length ?ps = 2" by (simp add: PROXIES_def)
  ultimately show ?thesis using try_proxies_appends [of net url ?ps r ?e1] by auto
qed

lemma fetchWithRetry_relay_after_direct:
  "\<forall>j. net url (attempt_no evs url) \<noteq> OkJson j \<Longrightarrow>
   \<exists>rest. snd (fetchWithRetry net enc url r evs) =
     evs @ Fetch url (Some 5000) # Fetch (''https://corsproxy.io/?'' @ enc url) (Some 8000) # rest"
proof -
  assume a: "\<forall>j. net url (attempt_no evs url) \<noteq> OkJson j"
  define e1 where "e1 = evs @ [Fetch url (Some 5000)]"
  define p1 where "p1 = ''https://corsproxy.io/?'' @ enc url"
  define p2 where "p2 = ''https://api.allorigins.win/raw?url='' @ enc url"
  from a have f: "fetchWithRetry net enc url r evs = try_proxies net url [p1, p2] r e1"
    by (auto simp: fetchWithRetry_def fetch_def PROXIES_def e1_def p1_def p2_def
        split: response.splits)
  obtain x e2 where ra: "relay_attempts net p1 r 0 e1 = (x, e2)" by force
  from relay_attempts_first [of net p1 r e1] ra obtain rest where
    r1: "e2 = e1 @ Fetch p1 (Some 8000) # rest" by auto
  have "\<exists>more. snd (try_proxies net url [p1, p2] r e1) = e2 @ more"
  proof (cases x)
    case (Some j)
    with ra show ?thesis by simp
  next
    case None
    with ra have "try_proxies net url [p1, p2] r e1 = try_proxies net url [p2] r e2" by simp
    with try_proxies_appends [of net url "[p2]" r e2] show ?thesis by auto
  qed
  with f r1 show ?thesis by (auto simp: e1_def p1_def)
qed

section \<open>Relay loop: which failures are retried\<close>

lemma always_not_ok_run:
  "fetchWithRetry (net_always NotOk) id ''u'' 2 [] =
     (Inl (FetchExhausted ''u''),
      [Fetch ''u'' (Some 5000),
       Fetch ''https://corsproxy.io/?u'' (Some 8000),
       Fetch ''https://corsproxy.io/?u'' (Some 8000),
       Fetch ''https://corsproxy.io/?u'' (Some 8000),
       Fetch ''https://api.allorigins.win/raw?url=u'' (Some 8000),
       Fetch ''https://api.allorigins.win/raw?url=u'' (Some 8000),
       Fetch ''https://api.allorigins.win/raw?url=u'' (Some 8000)])"
  by (simp add: fetchWithRetry_def fetch_def PROXIES_def net_always_def relay_not_ok relay_done)

text \<open>
  C3, as stated, fails for a non-2xx response: on a network that answers every request
  with a non-2xx status, each relay is tried three times (the whole retry budget of the
  default \<open>retries = 2\<close>) before the fetcher moves on, not once. A body that is no JSON
  does make the fetcher leave the relay after one request.
\<close>

theorem non2xx_retried_counterexample:
  "snd (fetchWithRetry (net_always NotOk) id ''u'' 2 []) =
     [Fetch ''u'' (Some 5000),
      Fetch ''https://corsproxy.io/?u'' (Some 8000),
      Fetch ''https://corsproxy.io/?u'' (Some 8000),
      Fetch ''https://corsproxy.io/?u'' (Some 8000),
      Fetch ''https://api.allorigins.win/raw?url=u'' (Some 8000),
      Fetch ''https://api.allorigins.win/raw?url=u'' (Some 8000),
      Fetch ''https://api.allorigins.win/raw?url=u'' (Some 8000)] \<and>
   snd (fetchWithRetry (net_always OkNotJson) id ''u'' 2 []) =
     [Fetch ''u'' (Some 5000),
      Fetch ''https://corsproxy.io/?u'' (Some 8000),
      Fetch ''https://api.allorigins.win/raw?url=u'' (Some 8000)]"
  by (simp add: always_not_ok_run)
     (simp add: fetchWithRetry_def fetch_def PROXIES_def net_always_def relay_not_json)

text \<open>
  C3, amended: in the relay loop, a 2xx response whose body fails to parse as JSON makes
  the fetcher abandon the current relay after that one request and move to the next
  relay in the list. A non-2xx response does not: while the retry budget lasts, the
  same relay is requested again at once, without backoff, so non-2xx responses consume
  the budget as network and timeout failures do (those with a backoff sleep between the
  attempts). A relay left without a result is followed by the next relay.
\<close>

theorem relay_loop_outcomes:
  "(i \<le> retries \<and> net proxyUrl (attempt_no evs proxyUrl) = OkNotJson \<longrightarrow>
      relay_attempts net proxyUrl retries i evs = (None, evs @ [Fetch proxyUrl (Some 8000)])) \<and>
   (i < retries \<and> net proxyUrl (attempt_no evs proxyUrl) = NotOk \<longrightarrow>
      (\<exists>rest. snd (relay_attempts net proxyUrl retries i evs) =
         evs @ Fetch proxyUrl (Some 8000) # Fetch proxyUrl (Some 8000) # rest)) \<and>
   (i < retries \<and> net proxyUrl (attempt_no evs proxyUrl) \<in> {Rejected, OkBodyError} \<longrightarrow>
      (\<exists>rest. snd (relay_attempts net proxyUrl retries i evs) =
         evs @ Fetch proxyUrl (Some 8000) # Sleep (500 * (i + 1)) # Fetch proxyUrl (Some 8000) # rest)) \<and>
   (fst (relay_attempts net proxyUrl retries 0 evs) = None \<longrightarrow>
      try_proxies net url (proxyUrl # others) retries evs =
        try_proxies net url others retries (snd (relay_attempts net proxyUrl retries 0 evs)))"
proof -
  let ?F = "Fetch proxyUrl (Some 8000)"
  have nxt: "\<exists>rest. snd (relay_attempts net proxyUrl retries (i + 1) e) = e @ ?F # rest"
    if "i < retries" for e
  proof -
    from that have le: "i + 1 \<le> retries" by simp
    have ap: "\<exists>new. snd (relay_attempts net proxyUrl retries (i + 1 + 1) (e @ pre)) = e @ pre @ new"
      for pre
      using relay_attempts_appends [of net proxyUrl retries "i + 1 + 1" "e @ pre"] by auto
    consider (ok) j where "net proxyUrl (attempt_no e proxyUrl) = OkJson j"
      | (nj) "net proxyUrl (attempt_no e proxyUrl) = OkNotJson"
      | (no) "net proxyUrl (attempt_no e proxyUrl) = NotOk"
      | (fl) "net proxyUrl (attempt_no e proxyUrl) \<in> {Rejected, OkBodyError}"
      by (cases "net proxyUrl (attempt_no e proxyUrl)") auto
    then show ?thesis
    proof cases
      case ok
      with le show ?thesis by (simp add: relay_ok)
    next
      case nj
      with le show ?thesis by (simp add: relay_not_json)
    next
      case no
      with le ap [of "[?F]"] show ?thesis by (auto simp: relay_not_ok)
    next
      case fl
      with le ap [of "[?F]"] ap [of "[?F, Sleep (500 * (i + 1 + 1))]"] show ?thesis
        by (cases "i + 1 = retries") (auto simp: relay_failed)
    qed
  qed
  have A: "relay_attempts net proxyUrl retries i evs = (None, evs @ [?F])"
    if "i \<le> retries \<and> net proxyUrl (attempt_no evs proxyUrl) = OkNotJson"
    using that by (simp add: relay_not_json)
  have B: "\<exists>rest. snd (relay_attempts net proxyUrl retries i evs) = evs @ ?F # ?F # rest"
    if h: "i < retries \<and> net proxyUrl (attempt_no evs proxyUrl) = NotOk"
  proof -
    from h have "relay_attempts net proxyUrl retries i evs =
        relay_attempts net proxyUrl retries (i + 1) (evs @ [?F])"
      by (simp add: relay_not_ok)
    with nxt [of "evs @ [?F]"] h show ?thesis by auto
  qed
  have C: "\<exists>rest. snd (relay_attempts net proxyUrl retries i evs) =
      evs @ ?F # Sleep (500 * (i + 1)) # ?F # rest"
    if h: "i < retries \<and> net proxyUrl (attempt_no evs proxyUrl) \<in> {Rejected, OkBodyError}"
  proof -
    from h have "relay_attempts net proxyUrl retries i evs =
        relay_attempts net proxyUrl retries (i + 1) (evs @ [?F, Sleep (500 * (i + 1))])"
      by (simp add: relay_failed)
    with nxt [of "evs @ [?F, Sleep (500 * (i + 1))]"] h show ?thesis by auto
  qed
  have D: "try_proxies net url (proxyUrl # others) retries evs =
      try_proxies net url others retries (snd (relay_attempts net proxyUrl retries 0 evs))"
    if "fst (relay_attempts net proxyUrl retries 0 evs) = None"
    using that by (cases "relay_attempts net proxyUrl retries 0 evs") simp
  from A B C D show ?thesis by blast
qed


theorem relay_loop_outcomes_witness:
  "relay_attempts (net_always OkNotJson) ''r'' 2 0 [] = (None, [Fetch ''r'' (Some 8000)]) \<and>
   take 2 (snd (relay_attempts (net_always NotOk) ''r'' 2 0 [])) =
     [Fetch ''r'' (Some 8000), Fetch ''r'' (Some 8000)] \<and>
   take 3 (snd (relay_attempts (net_always Rejected) ''r'' 2 0 [])) =
     [Fetch ''r'' (Some 8000), Sleep 500, Fetch ''r'' (Some 8000)] \<and>
   try_proxies (net_always OkNotJson) ''u'' [''r'', ''s''] 2 [] =
     try_proxies (net_always OkNotJson) ''u'' [''s''] 2 [Fetch ''r'' (Some 8000)]"
proof -
  have a: "relay_attempts (net_always OkNotJson) ''r'' 2 0 [] = (None, [Fetch ''r'' (Some 8000)])"
    using relay_loop_outcomes [where i = 0 and retries = 2 and net = "net_always OkNotJson"
        and proxyUrl = "''r''" and evs = "[]" and url = "''u''" and others = "[]"]
    by (simp add: net_always_def)
  have b: "take 2 (snd (relay_attempts (net_always NotOk) ''r'' 2 0 [])) =
      [Fetch ''r'' (Some 8000), Fetch ''r'' (Some 8000)]"
    using relay_loop_outcomes [where i = 0 and retries = 2 and net = "net_always NotOk"
        and proxyUrl = "''r''" and evs = "[]" and url = "''u''" and others = "[]"]
    by (auto simp: net_always_def)
  have c: "take 3 (snd (relay_attempts (net_always Rejected) ''r'' 2 0 [])) =
      [Fetch ''r'' (Some 8000), Sleep 500, Fetch ''r'' (Some 8000)]"
    using relay_loop_outcomes [where i = 0 and retries = 2 and net = "net_always Rejected"
        and proxyUrl = "''r''" and evs = "[]" and url = "''u''" and others = "[]"]
    by (auto simp: net_always_def)
  have d: "try_proxies (net_always OkNotJson) ''u'' [''r'', ''s''] 2 [] =
      try_proxies (net_always OkNotJson) ''u'' [''s''] 2 [Fetch ''r'' (Some 8000)]"
    using relay_loop_outcomes [where i = 0 and retries = 2 and net = "net_always OkNotJson"
        and proxyUrl = "''r''" and evs = "[]" and url = "''u''" and others = "[''s'']"] a
    by (simp add: net_always_def)
  from a b c d show ?thesis by simp
qed

section \<open>Events of a pagination\<close>

lemma ends_pagination_cases:
  "ends_pagination res \<or> (\<exists>data. res = Inr (ArrayJson data) \<and> data \<noteq> [])"
  by (auto simp: ends_pagination_def split: sum.splits json.splits)

lemma ntpc_pages_events:
  "page \<le> 15 \<Longrightarrow>
   \<exists>k new. 1 \<le> k \<and> page + k \<le> 16 \<and>
     snd (ntpc_pages net enc b ts page allData evs) = evs @ new \<and>
     take (length (snd (fetchWithRetry net enc (page_url b page ts) 2 evs)) - length evs) new =
       drop (length evs) (snd (fetchWithRetry net enc (page_url b page ts) 2 evs)) \<and>
     filter is_direct new = map (\<lambda>q. Fetch (page_url b q ts) (Some 5000)) [page..<page + k] \<and>
     length (filter is_fetch new) \<le> 7 * k"
proof (induction "15 - page" arbitrary: page allData evs)
  case 0
  then have p: "page = 15" by simp
  obtain res e1 where fw: "fetchWithRetry net enc (page_url b page ts) 2 evs = (res, e1)" by force
  from fetchWithRetry_appends [of net enc "page_url b page ts" 2 evs] fw obtain n1 where
    n1: "e1 = evs @ Fetch (page_url b page ts) (Some 5000) # n1" "filter is_direct n1 = []"
      "length (filter is_fetch n1) \<le> 6" by auto
  have "snd (ntpc_pages net enc b ts page allData evs) = e1"
    using ends_pagination_cases [of res] fw p
    by (auto simp: ntpc_pages_stop ntpc_pages_last)
  with n1 fw p show ?case
    by (intro exI [of _ 1] exI [of _ "Fetch (page_url b page ts) (Some 5000) # n1"])
       (simp add: event_kinds)
next
  case (Suc n)
  then have p: "page < 15" and n: "n = 15 - (page + 1)" by simp_all
  obtain res e1 where fw: "fetchWithRetry net enc (page_url b page ts) 2 evs = (res, e1)" by force
  from fetchWithRetry_appends [of net enc "page_url b page ts" 2 evs] fw obtain n1 where
    n1: "e1 = evs @ Fetch (page_url b page ts) (Some 5000) # n1" "filter is_direct n1 = []"
      "length (filter is_fetch n1) \<le> 6" by auto
  from ends_pagination_cases [of res] show ?case
  proof
    assume "ends_pagination res"
    with fw have "snd (ntpc_pages net enc b ts page allData evs) = e1"
      by (simp add: ntpc_pages_stop)
    with n1 fw p show ?thesis
      by (intro exI [of _ 1] exI [of _ "Fetch (page_url b page ts) (Some 5000) # n1"])
         (simp add: event_kinds)
  next
    assume "\<exists>data. res = Inr (ArrayJson data) \<and> data \<noteq> []"
    then obtain data where d: "res = Inr (ArrayJson data)" "data \<noteq> []" by blast
    with fw p have st: "ntpc_pages net enc b ts page allData evs =
        ntpc_pages net enc b ts (page + 1) (allData @ data) e1"
      by (simp add: ntpc_pages_more)
    from p have "page + 1 \<le> 15" by simp
    from Suc.hyps(1) [OF n this, of "allData @ data" e1] obtain k new where
      IH: "1 \<le> k" "page + 1 + k \<le> 16"
        "snd (ntpc_pages net enc b ts (page + 1) (allData @ data) e1) = e1 @ new"
        "filter is_direct new =
           map (\<lambda>q. Fetch (page_url b q ts) (Some 5000)) [page + 1..<page + 1 + k]"
        "length (filter is_fetch new) \<le> 7 * k" by blast
    have up: "[page..<page + (k + 1)] = page # [page + 1..<page + 1 + k]"
      by (simp add: upt_conv_Cons)
    show ?thesis
      using IH n1 st fw up
      by (intro exI [of _ "k + 1"]
            exI [of _ "Fetch (page_url b page ts) (Some 5000) # n1 @ new"])
         (simp add: event_kinds)
  qed
qed

lemma collected_then_stop:
  "collected net enc b ts page k evs = Some (got, evs1) \<Longrightarrow> page + k \<le> 15 \<Longrightarrow>
   fetchWithRetry net enc (page_url b (page + k) ts) 2 evs1 = (res, evs2) \<Longrightarrow>
   ends_pagination res \<Longrightarrow>
   ntpc_pages net enc b ts page allData evs = (allData @ got, evs2)"
proof (induction k arbitrary: page allData evs got)
  case 0
  then show ?case by (simp add: ntpc_pages_stop)
next
  case (Suc k)
  obtain r0 e0 where fw: "fetchWithRetry net enc (page_url b page ts) 2 evs = (r0, e0)" by force
  with Suc.prems(1) obtain data rest where
    d: "r0 = Inr (ArrayJson data)" "data \<noteq> []"
    and c: "collected net enc b ts (page + 1) k e0 = Some (rest, evs1)"
    and g: "got = data @ rest"
    by (auto split: sum.splits json.splits if_splits option.splits)
  from Suc.prems(2) have p: "page < 15" "page + 1 + k \<le> 15" by simp_all
  from Suc.prems(3) have f2: "fetchWithRetry net enc (page_url b (page + 1 + k) ts) 2 evs1 = (res, evs2)"
    by simp
  from Suc.IH [OF c p(2) f2 Suc.prems(4), of "allData @ data"] fw d p(1) g
  show ?case by (simp add: ntpc_pages_more)
qed


lemma ntpc_pages_retry_events:
  "page \<le> 15 \<Longrightarrow>
   \<exists>k. 1 \<le> k \<and> page + k \<le> 16 \<and>
     snd (ntpc_pages net enc b ts page allData evs) =
       retry_events net enc b ts [page..<page + k] evs"
proof (induction "15 - page" arbitrary: page allData evs)
  case 0
  then have p: "page = 15" by simp
  obtain res e1 where fw: "fetchWithRetry net enc (page_url b page ts) 2 evs = (res, e1)" by force
  have "snd (ntpc_pages net enc b ts page allData evs) = e1"
    using ends_pagination_cases [of res] fw p
    by (auto simp: ntpc_pages_stop ntpc_pages_last)
  with fw p show ?case
    by (intro exI [of _ 1]) (simp add: retry_events_def)
next
  case (Suc n)
  then have p: "page < 15" and n: "n = 15 - (page + 1)" by simp_all
  obtain res e1 where fw: "fetchWithRetry net enc (page_url b page ts) 2 evs = (res, e1)" by force
  from ends_pagination_cases [of res] show ?case
  proof
    assume "ends_pagination res"
    with fw have "snd (ntpc_pages net enc b ts page allData evs) = e1"
      by (simp add: ntpc_pages_stop)
    with fw p show ?thesis
      by (intro exI [of _ 1]) (simp add: retry_events_def)
  next
    assume "\<exists>data. res = Inr (ArrayJson data) \<and> data \<noteq> []"
    then obtain data where d: "res = Inr (ArrayJson data)" "data \<noteq> []" by blast
    with fw p have st: "ntpc_pages net enc b ts page allData evs =
        ntpc_pages net enc b ts (page + 1) (allData @ data) e1"
      by (simp add: ntpc_pages_more)
    from p have "page + 1 \<le> 15" by simp
    from Suc.hyps(1) [OF n this, of "allData @ data" e1] obtain k where
      IH: "1 \<le> k" "page + 1 + k \<le> 16"
        "snd (ntpc_pages net enc b ts (page + 1) (allData @ data) e1) =
           retry_events net enc b ts [page + 1..<page + 1 + k] e1" by blast
    have up: "[page..<page + (k + 1)] = page # [page + 1..<page + 1 + k]"
      by (simp add: upt_conv_Cons)
    show ?thesis
      using IH st fw up
      by (intro exI [of _ "k + 1"]) (simp add: retry_events_def)
  qed
qed

section \<open>Which fetches use relays\<close>

lemma blocked_relay_delivers:
  "fst (fetchWithRetry blocked_net id TPC_DESC_URL 2 []) = Inr (DescJson [sample_desc])"
proof -
  have ne: "''https://corsproxy.io/?'' @ TPC_DESC_URL \<noteq> TPC_DESC_URL"
    "''https://corsproxy.io/?'' @ TPC_DESC_URL \<noteq> TPC_AVAIL_URL"
    by (simp_all add: TPC_DESC_URL_def TPC_AVAIL_URL_def)
  have "relay_attempts blocked_net (''https://corsproxy.io/?'' @ TPC_DESC_URL) 2 0
      [Fetch TPC_DESC_URL (Some 5000)] =
      (Some (DescJson [sample_desc]),
       [Fetch TPC_DESC_URL (Some 5000), Fetch (''https://corsproxy.io/?'' @ TPC_DESC_URL) (Some 8000)])"
    using ne by (subst relay_ok [where j = "DescJson [sample_desc]"]) (simp_all add: blocked_net_def)
  then show ?thesis
    by (simp add: fetchWithRetry_def fetch_def PROXIES_def blocked_net_def)
qed

text \<open>
  C5, as stated, fails: when the direct requests to the stable-schema source are
  rejected, \<open>fetchTaipeiData\<close> returns the empty list after those two requests alone,
  although a relay would have delivered the payload to \<open>fetchWithRetry\<close>.
\<close>

theorem taipei_no_relay_counterexample:
  "fetchTaipeiData blocked_net sample_projection 0 =
     ([], [Fetch TPC_DESC_URL None, Fetch TPC_AVAIL_URL None]) \<and>
   fst (fetchWithRetry blocked_net id TPC_DESC_URL 2 []) = Inr (DescJson [sample_desc])"
  by (simp add: blocked_relay_delivers)
     (simp add: fetchTaipeiData_def fetch_def blocked_net_def)

text \<open>
  C5, amended: every page fetch of the paginated source goes through
  \<open>fetchWithRetry\<close> with its direct-then-relay strategy: the events of a pagination
  are exactly those of the successive \<open>fetchWithRetry\<close> calls (default \<open>retries = 2\<close>)
  for the pages \<open>0, ..., k - 1\<close> that it requests; in each such call a direct attempt
  that does not deliver JSON is followed by a request to the first relay, and the call
  issues at most \<open>1 + 2 * (retries + 1)\<close> requests. The description and availability
  fetches of the stable-schema source do not: each is one direct request without
  timeout, relay or retry, and if either direct attempt fails (or delivers no
  \<open>data.park\<close> array) the source contributes the empty list.
\<close>

theorem taipei_fetch_is_direct:
  "snd (fetchTaipeiData net p4 now) = [Fetch TPC_DESC_URL None, Fetch TPC_AVAIL_URL None] \<and>
   (\<not> delivers_park (net TPC_DESC_URL 0) \<or> \<not> delivers_park (net TPC_AVAIL_URL 0) \<longrightarrow>
      fst (fetchTaipeiData net p4 now) = []) \<and>
   (\<exists>k. 1 \<le> k \<and> k \<le> 16 \<and>
      snd (fetchAllNTPCData net enc ts baseUrl) = retry_events net enc baseUrl ts [0..<k] []) \<and>
   retry_events net enc baseUrl ts (page # pages) evs' =
     retry_events net enc baseUrl ts pages
       (snd (fetchWithRetry net enc (page_url baseUrl page ts) 2 evs')) \<and>
   retry_events net enc baseUrl ts [] evs' = evs' \<and>
   ((\<forall>j. net url (attempt_no evs url) \<noteq> OkJson j) \<longrightarrow>
      (\<exists>rest. snd (fetchWithRetry net enc url retries evs) =
         evs @ Fetch url (Some 5000) #
           Fetch (''https://corsproxy.io/?'' @ enc url) (Some 8000) # rest)) \<and>
   (\<exists>new. snd (fetchWithRetry net enc url retries evs) = evs @ new \<and>
      length (filter is_fetch new) \<le> 1 + 2 * (retries + 1))"
proof -
  have A: "snd (fetchTaipeiData net p4 now) = [Fetch TPC_DESC_URL None, Fetch TPC_AVAIL_URL None]"
    by (simp add: fetchTaipeiData_def fetch_def split: response.splits json.splits option.splits)
  have B: "fst (fetchTaipeiData net p4 now) = []"
    if "\<not> delivers_park (net TPC_DESC_URL 0) \<or> \<not> delivers_park (net TPC_AVAIL_URL 0)"
    using that by (rule fetchTaipeiData_needs_park)
  have C: "\<exists>new. snd (fetchWithRetry net enc url retries evs) = evs @ new \<and>
      length (filter is_fetch new) \<le> 1 + 2 * (retries + 1)"
  proof -
    from fetchWithRetry_appends [of net enc url retries evs] obtain n1 where
      "snd (fetchWithRetry net enc url retries evs) = evs @ Fetch url (Some 5000) # n1"
      "length (filter is_fetch n1) \<le> 2 * (retries + 1)" by blast
    then show ?thesis
      by (intro exI [of _ "Fetch url (Some 5000) # n1"]) (simp add: event_kinds)
  qed
  have D: "\<exists>k. 1 \<le> k \<and> k \<le> 16 \<and>
      snd (fetchAllNTPCData net enc ts baseUrl) = retry_events net enc baseUrl ts [0..<k] []"
    using ntpc_pages_retry_events [of 0 net enc baseUrl ts "[]" "[]"]
    by (simp add: fetchAllNTPCData_def)
  have E: "retry_events net enc baseUrl ts (page # pages) evs' =
      retry_events net enc baseUrl ts pages
        (snd (fetchWithRetry net enc (page_url baseUrl page ts) 2 evs')) \<and>
      retry_events net enc baseUrl ts [] evs' = evs'"
    by (simp add: retry_events_def)
  from A B C D E
    fetchWithRetry_relay_after_direct [where net = net and url = url and evs = evs
      and enc = enc and r = retries]
  show ?thesis by blast
qed

theorem taipei_fetch_is_direct_witness:
  "\<not> delivers_park (blocked_net TPC_DESC_URL 0) \<and>
   fetchTaipeiData blocked_net sample_projection 0 =
     ([], [Fetch TPC_DESC_URL None, Fetch TPC_AVAIL_URL None]) \<and>
   take 2 (snd (fetchWithRetry blocked_net id TPC_DESC_URL 2 [])) =
     [Fetch TPC_DESC_URL (Some 5000), Fetch (''https://corsproxy.io/?'' @ TPC_DESC_URL) (Some 8000)]"
proof -
  have h1: "\<not> delivers_park (blocked_net TPC_DESC_URL 0)"
    by (simp add: blocked_net_def delivers_park_def)
  have h2: "\<forall>j. blocked_net TPC_DESC_URL (attempt_no [] TPC_DESC_URL) \<noteq> OkJson j"
    by (simp add: blocked_net_def)
  note t = taipei_fetch_is_direct [where net = blocked_net and ?p4.0 = sample_projection
      and now = 0 and enc = id and ts = 7 and baseUrl = NTPC_DESC_BASE_URL
      and url = TPC_DESC_URL and evs = "[]" and retries = 2 and page = 0 and pages = "[]"
      and evs' = "[]"]
  from t h1 have a: "fetchTaipeiData blocked_net sample_projection 0 =
      ([], [Fetch TPC_DESC_URL None, Fetch TPC_AVAIL_URL None])"
    by (simp add: prod_eq_iff)
  from t h2 obtain rest where "snd (fetchWithRetry blocked_net id TPC_DESC_URL 2 []) =
      Fetch TPC_DESC_URL (Some 5000) #
        Fetch (''https://corsproxy.io/?'' @ TPC_DESC_URL) (Some 8000) # rest"
    by auto
  with a h1 show ?thesis by simp
qed

section \<open>Sample runs with a failing upstream\<close>

lemma relay_all_rejected:
  "\<forall>n. net p n = Rejected \<Longrightarrow> fst (relay_attempts net p r i evs) = None"
proof (induction "r + 1 - i" arbitrary: i evs)
  case 0
  then show ?case by (simp add: relay_done)
next
  case (Suc n)
  then have le: "i \<le> r" and n: "n = r + 1 - (i + 1)" by simp_all
  from Suc.prems have rj: "net p (attempt_no evs p) \<in> {Rejected, OkBodyError}" by simp
  show ?case
    using Suc.hyps(1) [OF n Suc.prems] le rj by (simp add: relay_failed)
qed

lemma fetch_all_rejected:
  "\<forall>n. net url n = Rejected \<Longrightarrow> \<forall>n. net (''https://corsproxy.io/?'' @ enc url) n = Rejected \<Longrightarrow>
   \<forall>n. net (''https://api.allorigins.win/raw?url='' @ enc url) n = Rejected \<Longrightarrow>
   fst (fetchWithRetry net enc url r evs) = Inl (FetchExhausted url)"
proof -
  assume a: "\<forall>n. net url n = Rejected"
    and b: "\<forall>n. net (''https://corsproxy.io/?'' @ enc url) n = Rejected"
    and c: "\<forall>n. net (''https://api.allorigins.win/raw?url='' @ enc url) n = Rejected"
  define p1 where "p1 = ''https://corsproxy.io/?'' @ enc url"
  define p2 where "p2 = ''https://api.allorigins.win/raw?url='' @ enc url"
  define e1 where "e1 = evs @ [Fetch url (Some 5000)]"
  from a have f: "fetchWithRetry net enc url r evs = try_proxies net url [p1, p2] r e1"
    by (simp add: fetchWithRetry_def fetch_def PROXIES_def p1_def p2_def e1_def)
  obtain x1 e2 where r1: "relay_attempts net p1 r 0 e1 = (x1, e2)" by force
  obtain x2 e3 where r2: "relay_attempts net p2 r 0 e2 = (x2, e3)" by force
  from relay_all_rejected [of net p1 r 0 e1] b r1 have "x1 = None" by (simp add: p1_def)
  moreover from relay_all_rejected [of net p2 r 0 e2] c r2 have "x2 = None" by (simp add: p2_def)
  ultimately show ?thesis using f r1 r2 by simp
qed

lemma one_page_then_empty:
  "net (page_url b 0 ts) 0 = OkJson (ArrayJson data) \<Longrightarrow> data \<noteq> [] \<Longrightarrow>
   net (page_url b 1 ts) 0 = OkJson (ArrayJson []) \<Longrightarrow>
   fst (fetchAllNTPCData net enc ts b) = data"
proof -
  assume a: "net (page_url b 0 ts) 0 = OkJson (ArrayJson data)" and d: "data \<noteq> []"
    and e: "net (page_url b 1 ts) 0 = OkJson (ArrayJson [])"
  let ?u0 = "page_url b 0 ts" and ?u1 = "page_url b 1 ts"
  have ne: "?u1 \<noteq> ?u0" by (simp add: page_url_def show_nat.simps)
  have f0: "fetchWithRetry net enc ?u0 2 [] = (Inr (ArrayJson data), [Fetch ?u0 (Some 5000)])"
    using a by (simp add: fetchWithRetry_direct attempt_no_Nil)
  have f1: "fetchWithRetry net enc ?u1 2 [Fetch ?u0 (Some 5000)] =
      (Inr (ArrayJson []), [Fetch ?u0 (Some 5000), Fetch ?u1 (Some 5000)])"
    using e ne by (simp add: fetchWithRetry_direct attempt_no_def)
  show ?thesis
    unfolding fetchAllNTPCData_def
    using ntpc_pages_more [OF f0 d, of "[]"] ntpc_pages_stop [OF f1, of "[] @ data"]
    by (simp add: ends_pagination_def)
qed

section \<open>Pagination: early termination and the page ceiling\<close>

text \<open>
  C6: when the first \<open>k\<close> pages (\<open>k \<le> 15\<close>) each give a non-empty array and the fetch
  of page \<open>k\<close> fails, or gives a value that is not a non-empty array, the pagination
  returns exactly the concatenation of those \<open>k\<close> pages, not the empty list and not an
  error, and its events end with those of that last fetch: no further page is
  requested.
\<close>

theorem pagination_keeps_pages:
  "collected net enc baseUrl ts 0 k [] = Some (got, evs) \<Longrightarrow> k \<le> 15 \<Longrightarrow>
   fetchWithRetry net enc (page_url baseUrl k ts) 2 evs = (res, evs') \<Longrightarrow>
   ends_pagination res \<Longrightarrow>
   fetchAllNTPCData net enc ts baseUrl = (got, evs')"
  using collected_then_stop [of net enc baseUrl ts 0 k "[]" got evs res evs' "[]"]
  by (simp add: fetchAllNTPCData_def)

theorem pagination_keeps_pages_witness:
  "collected (failing_page_net ''b'') id ''b'' 7 0 1 [] =
     Some ([Some ntpc_desc_obj], [Fetch (page_url ''b'' 0 7) (Some 5000)]) \<and>
   ends_pagination (fst (fetchWithRetry (failing_page_net ''b'') id (page_url ''b'' 1 7) 2
     [Fetch (page_url ''b'' 0 7) (Some 5000)])) \<and>
   fst (fetchAllNTPCData (failing_page_net ''b'') id 7 ''b'') = [Some ntpc_desc_obj] \<and>
   fetchAllNTPCData sample_net id 7 NTPC_DESC_BASE_URL =
     ([Some ntpc_desc_obj],
      [Fetch (page_url NTPC_DESC_BASE_URL 0 7) (Some 5000),
       Fetch (page_url NTPC_DESC_BASE_URL 1 7) (Some 5000)])"
proof -
  let ?net = "failing_page_net ''b''"
  let ?u0 = "page_url ''b'' 0 7" and ?u1 = "page_url ''b'' 1 7"
  let ?e0 = "[Fetch ?u0 (Some 5000)]"
  have ne: "?u1 \<noteq> ?u0" "''https://corsproxy.io/?'' @ ?u1 \<noteq> ?u0"
    "''https://api.allorigins.win/raw?url='' @ ?u1 \<noteq> ?u0"
    by (simp_all add: page_url_def show_nat.simps)
  have f0: "fetchWithRetry ?net id ?u0 2 [] = (Inr (ArrayJson [Some ntpc_desc_obj]), ?e0)"
    by (simp add: fetchWithRetry_direct attempt_no_Nil failing_page_net_def)
  have c: "collected ?net id ''b'' 7 0 1 [] = Some ([Some ntpc_desc_obj], ?e0)"
    using f0 by (simp add: numeral_eq_Suc)
  have f1: "fst (fetchWithRetry ?net id ?u1 2 ?e0) = Inl (FetchExhausted ?u1)"
    using ne by (intro fetch_all_rejected) (simp_all add: failing_page_net_def)
  then have e: "ends_pagination (fst (fetchWithRetry ?net id ?u1 2 ?e0))"
    by (simp add: ends_pagination_def)
  have p: "fetchWithRetry ?net id ?u1 2 ?e0 =
      (fst (fetchWithRetry ?net id ?u1 2 ?e0), snd (fetchWithRetry ?net id ?u1 2 ?e0))"
    by simp
  have k: "(1::nat) \<le> 15" by simp
  let ?v0 = "page_url NTPC_DESC_BASE_URL 0 7" and ?v1 = "page_url NTPC_DESC_BASE_URL 1 7"
  have v0: "?v0 \<noteq> TPC_DESC_URL" "?v0 \<noteq> TPC_AVAIL_URL"
    by (simp_all add: page_url_def NTPC_DESC_BASE_URL_def TPC_DESC_URL_def TPC_AVAIL_URL_def)
  have v1: "?v1 \<noteq> TPC_DESC_URL" "?v1 \<noteq> TPC_AVAIL_URL" "?v1 \<noteq> ?v0"
    "?v1 \<noteq> page_url NTPC_AVAIL_BASE_URL 0 7"
    by (simp_all add: page_url_def NTPC_DESC_BASE_URL_def NTPC_AVAIL_BASE_URL_def TPC_DESC_URL_def
        TPC_AVAIL_URL_def show_nat.simps)
  have g0: "fetchWithRetry sample_net id ?v0 2 [] =
      (Inr (ArrayJson [Some ntpc_desc_obj]), [Fetch ?v0 (Some 5000)])"
    using v0 by (simp add: fetchWithRetry_direct sample_net_def)
  have c': "collected sample_net id NTPC_DESC_BASE_URL 7 0 1 [] =
      Some ([Some ntpc_desc_obj], [Fetch ?v0 (Some 5000)])"
    using g0 by (simp add: numeral_eq_Suc)
  have g1: "fetchWithRetry sample_net id ?v1 2 [Fetch ?v0 (Some 5000)] =
      (Inr (ArrayJson []), [Fetch ?v0 (Some 5000), Fetch ?v1 (Some 5000)])"
    using v1 by (simp add: fetchWithRetry_direct sample_net_def)
  have e': "ends_pagination (Inr (ArrayJson []))" by (simp add: ends_pagination_def)
  from pagination_keeps_pages [OF c k p e] pagination_keeps_pages [OF c' k g1 e'] c e
  show ?thesis by simp
qed

text \<open>
  C7: whatever the upstream answers, one pagination issues at most 16 page requests:
  the direct requests in its events are those for the pages \<open>0, ..., k - 1\<close>, in this
  order, for some \<open>k\<close> between 1 and 16 (and at most 7 HTTP requests are made for each
  page).
\<close>

theorem at_most_16_page_requests:
  "\<exists>k. 1 \<le> k \<and> k \<le> 16 \<and>
     filter is_direct (snd (fetchAllNTPCData net enc ts baseUrl)) =
       map (\<lambda>page. Fetch (page_url baseUrl page ts) (Some 5000)) [0..<k] \<and>
     length (filter is_direct (snd (fetchAllNTPCData net enc ts baseUrl))) \<le> 16 \<and>
     length (filter is_fetch (snd (fetchAllNTPCData net enc ts baseUrl))) \<le> 7 * 16"
proof -
  from ntpc_pages_events [of 0 net enc baseUrl ts "[]" "[]"] obtain k new where
    k: "1 \<le> k" "k \<le> 16" "snd (ntpc_pages net enc baseUrl ts 0 [] []) = new"
      "filter is_direct new = map (\<lambda>q. Fetch (page_url baseUrl q ts) (Some 5000)) [0..<k]"
      "length (filter is_fetch new) \<le> 7 * k"
    by auto
  from k(4) have "length (filter is_direct new) = k" by simp
  with k show ?thesis unfolding fetchAllNTPCData_def by (intro exI [of _ k]) simp
qed

text \<open>
  The ceiling is reached: on an upstream that answers every request with the same
  non-empty page, the pagination requests the pages 0 to 15 and returns 16 pages.
\<close>

lemma endless_upstream_pages:
  "\<forall>u n. net u n = OkJson (ArrayJson d) \<Longrightarrow> d \<noteq> [] \<Longrightarrow> page \<le> 15 \<Longrightarrow>
   ntpc_pages net enc b ts page allData evs =
     (allData @ concat (replicate (16 - page) d),
      evs @ map (\<lambda>q. Fetch (page_url b q ts) (Some 5000)) [page..<16])"
proof (induction "15 - page" arbitrary: page allData evs)
  case 0
  then have p: "page = 15" by simp
  from 0 have f: "fetchWithRetry net enc (page_url b page ts) 2 evs =
      (Inr (ArrayJson d), evs @ [Fetch (page_url b page ts) (Some 5000)])"
    by (simp add: fetchWithRetry_direct)
  from ntpc_pages_last [OF f \<open>d \<noteq> []\<close>, of allData] p show ?case by simp
next
  case (Suc n)
  then have p: "page < 15" and n: "n = 15 - (page + 1)" by simp_all
  from Suc have f: "fetchWithRetry net enc (page_url b page ts) 2 evs =
      (Inr (ArrayJson d), evs @ [Fetch (page_url b page ts) (Some 5000)])"
    by (simp add: fetchWithRetry_direct)
  from p have le: "page + 1 \<le> 15" by simp
  have up: "[page..<16] = page # [page + 1..<16]"
    using p by (simp add: upt_conv_Cons)
  have rp: "replicate (16 - page) d = d # replicate (16 - (page + 1)) d"
    using p by (cases "16 - page") auto
  from ntpc_pages_more [OF f \<open>d \<noteq> []\<close> p, of allData]
    Suc.hyps(1) [OF n Suc.prems(1) Suc.prems(2) le,
      of "allData @ d" "evs @ [Fetch (page_url b page ts) (Some 5000)]"]
  show ?case by (simp add: up rp)
qed

lemma endless_upstream_sixteen_requests:
  "length (filter is_direct (snd (fetchAllNTPCData (net_always (OkJson (ArrayJson [None]))) enc ts b)))
     = 16 \<and>
   length (fst (fetchAllNTPCData (net_always (OkJson (ArrayJson [None]))) enc ts b)) = 16"
proof -
  have "fetchAllNTPCData (net_always (OkJson (ArrayJson [None]))) enc ts b =
      (concat (replicate 16 [None]),
       map (\<lambda>q. Fetch (page_url b q ts) (Some 5000)) [0..<16])"
    unfolding fetchAllNTPCData_def
    using endless_upstream_pages [of "net_always (OkJson (ArrayJson [None]))" "[None]" 0 enc b ts "[]" "[]"]
    by (simp add: net_always_def)
  then show ?thesis
    by (simp add: is_direct_def length_concat)
qed

section \<open>The result of the aggregate\<close>

lemma no_first_page_no_records:
  "ends_pagination (fst (fetchWithRetry net enc (page_url NTPC_DESC_BASE_URL 0 ts) 2 [])) \<Longrightarrow>
   fst (fetchNewTaipeiData net enc p4 ts now) = []"
proof -
  assume e: "ends_pagination (fst (fetchWithRetry net enc (page_url NTPC_DESC_BASE_URL 0 ts) 2 []))"
  have "fetchWithRetry net enc (page_url NTPC_DESC_BASE_URL 0 ts) 2 [] =
      (fst (fetchWithRetry net enc (page_url NTPC_DESC_BASE_URL 0 ts) 2 []),
       snd (fetchWithRetry net enc (page_url NTPC_DESC_BASE_URL 0 ts) 2 []))" by simp
  from ntpc_pages_stop [OF this e, of "[]"]
  have "fst (fetchAllNTPCData net enc ts NTPC_DESC_BASE_URL) = []"
    by (simp add: fetchAllNTPCData_def)
  then show ?thesis by (simp add: fetchNewTaipeiData_normalize ntpc_normalize_def)
qed

text \<open>
  C4: the aggregate returns the records of the stable-schema source followed by those
  of the paginated source; it fails, with \<open>NoDataAvailable\<close>, exactly when both sources
  contribute no record. A source that fails (the stable-schema source not getting a
  2xx JSON body with a \<open>data.park\<close> array from one of its two requests, the paginated
  source not getting a first page of descriptions) contributes the empty list, and the
  other source's records are returned without error.
\<close>

theorem aggregate_result:
  "((fetchParkingData net enc p4 ts now = Inl NoDataAvailable) =
      (fst (fetchTaipeiData net p4 now) = [] \<and> fst (fetchNewTaipeiData net enc p4 ts now) = [])) \<and>
   (fetchParkingData net enc p4 ts now = Inl NoDataAvailable \<or>
    fetchParkingData net enc p4 ts now =
      Inr (fst (fetchTaipeiData net p4 now) @ fst (fetchNewTaipeiData net enc p4 ts now))) \<and>
   ((\<not> delivers_park (net TPC_DESC_URL 0) \<or> \<not> delivers_park (net TPC_AVAIL_URL 0)) \<and>
    fst (fetchNewTaipeiData net enc p4 ts now) \<noteq> [] \<longrightarrow>
      fetchParkingData net enc p4 ts now = Inr (fst (fetchNewTaipeiData net enc p4 ts now))) \<and>
   (ends_pagination (fst (fetchWithRetry net enc (page_url NTPC_DESC_BASE_URL 0 ts) 2 [])) \<and>
    fst (fetchTaipeiData net p4 now) \<noteq> [] \<longrightarrow>
      fetchParkingData net enc p4 ts now = Inr (fst (fetchTaipeiData net p4 now)))"
proof -
  let ?A = "fst (fetchTaipeiData net p4 now)"
  let ?B = "fst (fetchNewTaipeiData net enc p4 ts now)"
  have R: "fetchParkingData net enc p4 ts now =
      (if ?A = [] \<and> ?B = [] then Inl NoDataAvailable else Inr (?A @ ?B))"
    by (simp add: fetchParkingData_def Let_def)
  have A0: "?A = []"
    if "\<not> delivers_park (net TPC_DESC_URL 0) \<or> \<not> delivers_park (net TPC_AVAIL_URL 0)"
    using that by (rule fetchTaipeiData_needs_park)
  have B0: "?B = []"
    if "ends_pagination (fst (fetchWithRetry net enc (page_url NTPC_DESC_BASE_URL 0 ts) 2 []))"
    using that by (rule no_first_page_no_records)
  have 1: "(fetchParkingData net enc p4 ts now = Inl NoDataAvailable) = (?A = [] \<and> ?B = [])"
    by (simp add: R)
  have 2: "fetchParkingData net enc p4 ts now = Inl NoDataAvailable \<or>
      fetchParkingData net enc p4 ts now = Inr (?A @ ?B)"
    by (simp add: R)
  have 3: "fetchParkingData net enc p4 ts now = Inr ?B"
    if "(\<not> delivers_park (net TPC_DESC_URL 0) \<or> \<not> delivers_park (net TPC_AVAIL_URL 0)) \<and>
        ?B \<noteq> []"
    using that A0 by (simp add: R)
  have 4: "fetchParkingData net enc p4 ts now = Inr ?A"
    if "ends_pagination (fst (fetchWithRetry net enc (page_url NTPC_DESC_BASE_URL 0 ts) 2 [])) \<and>
        ?A \<noteq> []"
    using that B0 by (simp add: R)
  from 1 2 3 4 show ?thesis by blast
qed

lemma ntpc_only_pages:
  "fst (fetchAllNTPCData ntpc_only_net enc 7 NTPC_DESC_BASE_URL) = [Some ntpc_desc_obj]"
  "fst (fetchAllNTPCData ntpc_only_net enc 7 NTPC_AVAIL_BASE_URL) = [Some ntpc_avail_obj]"
proof -
  show "fst (fetchAllNTPCData ntpc_only_net enc 7 NTPC_DESC_BASE_URL) = [Some ntpc_desc_obj]"
    by (rule one_page_then_empty)
       (simp_all add: ntpc_only_net_def sample_net_def page_url_def show_nat.simps
          NTPC_DESC_BASE_URL_def NTPC_AVAIL_BASE_URL_def TPC_DESC_URL_def TPC_AVAIL_URL_def)
  show "fst (fetchAllNTPCData ntpc_only_net enc 7 NTPC_AVAIL_BASE_URL) = [Some ntpc_avail_obj]"
    by (rule one_page_then_empty)
       (simp_all add: ntpc_only_net_def sample_net_def page_url_def show_nat.simps
          NTPC_DESC_BASE_URL_def NTPC_AVAIL_BASE_URL_def TPC_DESC_URL_def TPC_AVAIL_URL_def)
qed

lemma tpc_only_first_page_fails:
  "ends_pagination
     (fst (fetchWithRetry tpc_only_net id (page_url NTPC_DESC_BASE_URL 0 7) 2 []))"
proof -
  have "fst (fetchWithRetry tpc_only_net id (page_url NTPC_DESC_BASE_URL 0 7) 2 []) =
      Inl (FetchExhausted (page_url NTPC_DESC_BASE_URL 0 7))"
    by (intro fetch_all_rejected)
       (simp_all add: tpc_only_net_def page_url_def NTPC_DESC_BASE_URL_def TPC_DESC_URL_def
          TPC_AVAIL_URL_def)
  then show ?thesis by (simp add: ends_pagination_def)
qed

lemma tpc_only_fetchTaipeiData: "fst (fetchTaipeiData tpc_only_net sample_projection 0) = [sample_lot]"
proof -
  have ne: "TPC_AVAIL_URL \<noteq> TPC_DESC_URL"
    by (simp add: TPC_AVAIL_URL_def TPC_DESC_URL_def)
  show ?thesis
    using ne
    by (simp add: fetchTaipeiData_def fetch_def tpc_only_net_def sample_net_def park_availMap_def
        tpc_normalize_def [symmetric] sample_tpc_normalize)
qed

theorem aggregate_result_witness:
  "fetchParkingData sample_net id sample_projection 7 0 = Inr [sample_lot, ntpc_lot] \<and>
   fetchParkingData ntpc_only_net id sample_projection 7 0 = Inr [ntpc_lot] \<and>
   fetchParkingData tpc_only_net id sample_projection 7 0 = Inr [sample_lot] \<and>
   fetchParkingData (net_always Rejected) id sample_projection 7 0 = Inl NoDataAvailable"
proof -
  have a: "fetchParkingData sample_net id sample_projection 7 0 = Inr [sample_lot, ntpc_lot]"
    using aggregate_result [where net = sample_net and enc = id and ?p4.0 = sample_projection
        and ts = 7 and now = 0]
    by (auto simp: sample_fetchTaipeiData sample_fetchNewTaipeiData)
  have nb: "fst (fetchNewTaipeiData ntpc_only_net id sample_projection 7 0) = [ntpc_lot]"
    by (simp add: fetchNewTaipeiData_normalize ntpc_only_pages sample_ntpc_normalize)
  have b: "fetchParkingData ntpc_only_net id sample_projection 7 0 = Inr [ntpc_lot]"
    using aggregate_result [where net = ntpc_only_net and enc = id and ?p4.0 = sample_projection
        and ts = 7 and now = 0] nb
    by (auto simp: ntpc_only_net_def delivers_park_def)
  have c: "fetchParkingData tpc_only_net id sample_projection 7 0 = Inr [sample_lot]"
    using aggregate_result [where net = tpc_only_net and enc = id and ?p4.0 = sample_projection
        and ts = 7 and now = 0] tpc_only_first_page_fails
    by (auto simp: tpc_only_fetchTaipeiData)
  have e: "ends_pagination
      (fst (fetchWithRetry (net_always Rejected) id (page_url NTPC_DESC_BASE_URL 0 7) 2 []))"
    by (simp add: fetch_all_rejected net_always_def ends_pagination_def)
  have t: "fst (fetchTaipeiData (net_always Rejected) sample_projection 0) = []"
    by (simp add: fetchTaipeiData_def fetch_def net_always_def)
  have d: "fetchParkingData (net_always Rejected) id sample_projection 7 0 = Inl NoDataAvailable"
    using aggregate_result [where net = "net_always Rejected" and enc = id
        and ?p4.0 = sample_projection and ts = 7 and now = 0] t
      no_first_page_no_records [OF e, of sample_projection 0]
    by simp
  from a b c d show ?thesis by simp
qed

end
